theory Spec2Isabelle
  imports Complex_Main "HOL-Library.AList"
begin

section \<open>Configuration constants\<close>

text \<open>
  Counters are \<open>nat\<close>, the score is \<open>int\<close>, a random sample is a \<open>real\<close>, and the
  constants below are reals; rounding of doubles is not modelled.
\<close>

definition TICK_RATE :: nat where "TICK_RATE = 30"
definition MAP_SIZE :: real where "MAP_SIZE = 2000"
definition INITIAL_LENGTH :: nat where "INITIAL_LENGTH = 5"
definition SPEED :: real where "SPEED = 5"
definition BOOST_SPEED :: real where "BOOST_SPEED = 10"
definition INITIAL_SCORE :: int where "INITIAL_SCORE = 100"

section \<open>JavaScript numbers\<close>

text \<open>
  A coordinate or an angle of the server is a JavaScript number: a finite one, read as a
  real, or \<open>NaN\<close>. An angle is whatever the client sent, as \<^verbatim>\<open>Math.cos\<close> and \<^verbatim>\<open>Math.sin\<close>
  read it; \<open>NaN\<close> also stands for the payloads they turn into \<^verbatim>\<open>NaN\<close> (\<^verbatim>\<open>undefined\<close>, a
  string that is no number, \<^verbatim>\<open>1e999\<close>, which JSON parses to \<^verbatim>\<open>Infinity\<close>). Arithmetic with
  \<open>NaN\<close> gives \<open>NaN\<close>, and every comparison with \<open>NaN\<close> is false.
\<close>

datatype jsnum = Num real | NaN

fun jadd :: "jsnum \<Rightarrow> jsnum \<Rightarrow> jsnum" where
  "jadd (Num a) (Num b) = Num (a + b)"
| "jadd a b = NaN"

fun jsub :: "jsnum \<Rightarrow> jsnum \<Rightarrow> jsnum" where
  "jsub (Num a) (Num b) = Num (a - b)"
| "jsub a b = NaN"

fun jmul :: "jsnum \<Rightarrow> jsnum \<Rightarrow> jsnum" where
  "jmul (Num a) (Num b) = Num (a * b)"
| "jmul a b = NaN"

text \<open>\<^verbatim>\<open>a < b\<close>; the source's \<^verbatim>\<open>a > b\<close> is \<open>jless b a\<close>.\<close>

fun jless :: "jsnum \<Rightarrow> jsnum \<Rightarrow> bool" where
  "jless (Num a) (Num b) = (a < b)"
| "jless a b = False"

fun Math_cos :: "jsnum \<Rightarrow> jsnum" where
  "Math_cos (Num a) = Num (cos a)"
| "Math_cos NaN = NaN"

fun Math_sin :: "jsnum \<Rightarrow> jsnum" where
  "Math_sin (Num a) = Num (sin a)"
| "Math_sin NaN = NaN"

fun Math_hypot :: "jsnum \<Rightarrow> jsnum \<Rightarrow> jsnum" where
  "Math_hypot (Num a) (Num b) = Num (sqrt (a * a + b * b))"
| "Math_hypot a b = NaN"

section \<open>World entities\<close>

text \<open>A colour is the string \<^verbatim>\<open>hsl(h, 100%, 50%)\<close>; only the hue \<open>h\<close> varies.\<close>

datatype color = Hsl real

record segment =
  seg_x :: jsnum
  seg_y :: jsnum

record food =
  food_x :: jsnum
  food_y :: jsnum
  food_color :: color

record player =
  p_id :: string
  p_name :: string
  p_x :: jsnum
  p_y :: jsnum
  p_angle :: jsnum
  p_length :: nat
  p_body :: "segment list"
  p_color :: color
  p_score :: int
  p_isBoosting :: bool

text \<open>
  \<open>players\<close> is a JavaScript object keyed by socket id: an association list in insertion
  order, which is the order \<^verbatim>\<open>for (... in players)\<close> visits the keys in.
\<close>

record room =
  r_players :: "(string \<times> player) list"
  r_food :: "food list"
  r_lastUpdate :: nat
  r_tickCount :: nat

section \<open>The random source\<close>

text \<open>
  \<^verbatim>\<open>Math.random()\<close> is a stream of samples handed in from outside: a call reads the
  first sample and leaves the rest.
\<close>

type_synonym rng = "nat \<Rightarrow> real"

definition random :: "rng \<Rightarrow> real \<times> rng" where
  "random g = (g 0, \<lambda>n. g (Suc n))"

definition generateFood :: "rng \<Rightarrow> food \<times> rng" where
  "generateFood g =
     (let (r1, g1) = random g;
          (r2, g2) = random g1;
          (r3, g3) = random g2
      in (\<lparr>food_x = Num (r1 * MAP_SIZE - MAP_SIZE / 2),
           food_y = Num (r2 * MAP_SIZE - MAP_SIZE / 2),
           food_color = Hsl (r3 * 360)\<rparr>, g3))"

text \<open>The seeding loop of \<^verbatim>\<open>createRoom\<close>: \<open>n\<close> more pushes onto the food array.\<close>

fun seedFood :: "nat \<Rightarrow> food list \<Rightarrow> rng \<Rightarrow> food list \<times> rng" where
  "seedFood 0 fs g = (fs, g)"
| "seedFood (Suc n) fs g = (let (f, g1) = generateFood g in seedFood n (fs @ [f]) g1)"

definition createRoom :: "nat \<Rightarrow> rng \<Rightarrow> room \<times> rng" where
  "createRoom now g =
     (let (fs, g1) = seedFood 100 [] g
      in (\<lparr>r_players = [], r_food = fs, r_lastUpdate = now, r_tickCount = 0\<rparr>, g1))"

section \<open>The game loop, one player\<close>

text \<open>
  Boost handling. The result is the speed of this tick, the player, the food array and
  the random source. \<^verbatim>\<open>player.body[player.body.length - 1]\<close> is \<^verbatim>\<open>undefined\<close> on an
  empty body, and then nothing is dropped.
\<close>

definition handleBoost :: "nat \<Rightarrow> player \<Rightarrow> food list \<Rightarrow> rng \<Rightarrow> real \<times> player \<times> food list \<times> rng" where
  "handleBoost tickCount p fs g =
     (if p_isBoosting p \<and> p_score p > 10 then
        (if tickCount mod 5 = 0 then
           (let p1 = p\<lparr>p_score := p_score p - 1\<rparr>
            in if p_body p = [] then (BOOST_SPEED, p1, fs, g)
               else
                 (let tail = last (p_body p);
                      (r1, g1) = random g;
                      (r2, g2) = random g1
                  in (BOOST_SPEED, p1,
                      fs @ [\<lparr>food_x = jadd (seg_x tail) (Num (r1 * 10 - 5)),
                              food_y = jadd (seg_y tail) (Num (r2 * 10 - 5)),
                              food_color = p_color p\<rparr>], g2)))
         else (BOOST_SPEED, p, fs, g))
      else (SPEED, p\<lparr>p_isBoosting := False\<rparr>, fs, g))"

definition moveHead :: "real \<Rightarrow> player \<Rightarrow> player" where
  "moveHead currentSpeed p =
     p\<lparr>p_x := jadd (p_x p) (jmul (Math_cos (p_angle p)) (Num currentSpeed)),
       p_y := jadd (p_y p) (jmul (Math_sin (p_angle p)) (Num currentSpeed))\<rparr>"

definition boundaryChecks :: "player \<Rightarrow> player" where
  "boundaryChecks p =
     (let p1 = (if jless (p_x p) (Num (- MAP_SIZE / 2)) then p\<lparr>p_x := Num (- MAP_SIZE / 2)\<rparr> else p);
          p2 = (if jless (Num (MAP_SIZE / 2)) (p_x p1) then p1\<lparr>p_x := Num (MAP_SIZE / 2)\<rparr> else p1);
          p3 = (if jless (p_y p2) (Num (- MAP_SIZE / 2)) then p2\<lparr>p_y := Num (- MAP_SIZE / 2)\<rparr> else p2);
          p4 = (if jless (Num (MAP_SIZE / 2)) (p_y p3) then p3\<lparr>p_y := Num (MAP_SIZE / 2)\<rparr> else p3)
      in p4)"

text \<open>\<^verbatim>\<open>while (player.body.length > player.length) player.body.pop()\<close>\<close>

function popWhile :: "nat \<Rightarrow> segment list \<Rightarrow> segment list" where
  "popWhile n b = (if length b > n then popWhile n (butlast b) else b)"
  by pat_completeness auto
termination
  by (relation "measure (\<lambda>(n, b). length b)") auto

definition updateBody :: "player \<Rightarrow> player" where
  "updateBody p =
     p\<lparr>p_body := popWhile (p_length p) (\<lparr>seg_x = p_x p, seg_y = p_y p\<rparr> # p_body p)\<rparr>"

text \<open>\<^verbatim>\<open>room.food.splice(i, 1)\<close>\<close>

definition splice1 :: "nat \<Rightarrow> 'a list \<Rightarrow> 'a list" where
  "splice1 i xs = take i xs @ drop (Suc i) xs"

text \<open>
  The food scan, \<^verbatim>\<open>for (let i = room.food.length - 1; i >= 0; i--)\<close>. The first argument
  is \<open>i + 1\<close>. A read past the end of the array gives \<^verbatim>\<open>undefined\<close>, whose \<^verbatim>\<open>.x\<close> throws:
  the result \<open>None\<close>.
\<close>

fun foodLoop :: "nat \<Rightarrow> player \<Rightarrow> food list \<Rightarrow> rng \<Rightarrow> (player \<times> food list \<times> rng) option" where
  "foodLoop 0 p fs g = Some (p, fs, g)"
| "foodLoop (Suc i) p fs g =
     (if i < length fs then
        (let f = fs ! i;
             dist = Math_hypot (jsub (p_x p) (food_x f)) (jsub (p_y p) (food_y f))
         in if jless dist (Num 20) then
              (let p1 = p\<lparr>p_length := p_length p + 1, p_score := p_score p + 10\<rparr>;
                   (nf, g1) = generateFood g
               in foodLoop i p1 (splice1 i fs @ [nf]) g1)
            else foodLoop i p fs g)
      else None)"

text \<open>The body of \<^verbatim>\<open>for (const playerId in players)\<close> in the movement pass.\<close>

definition playerTick :: "nat \<Rightarrow> player \<Rightarrow> food list \<Rightarrow> rng \<Rightarrow> (player \<times> food list \<times> rng) option" where
  "playerTick tickCount p fs g =
     (let (currentSpeed, p1, fs1, g1) = handleBoost tickCount p fs g;
          p2 = updateBody (boundaryChecks (moveHead currentSpeed p1))
      in foodLoop (length fs1) p2 fs1 g1)"

section \<open>The game loop, one room\<close>

text \<open>
  The movement pass over \<open>players\<close>: every entry is updated in place, in key order, and
  the food array and the random source are handed from one player to the next.
\<close>

fun movePlayers :: "nat \<Rightarrow> (string \<times> player) list \<Rightarrow> food list \<Rightarrow> rng
    \<Rightarrow> ((string \<times> player) list \<times> food list \<times> rng) option" where
  "movePlayers tickCount [] fs g = Some ([], fs, g)"
| "movePlayers tickCount ((playerId, p) # rest) fs g =
     (case playerTick tickCount p fs g of
        None \<Rightarrow> None
      | Some (p1, fs1, g1) \<Rightarrow>
          (case movePlayers tickCount rest fs1 g1 of
             None \<Rightarrow> None
           | Some (rest1, fs2, g2) \<Rightarrow> Some ((playerId, p1) # rest1, fs2, g2)))"

text \<open>The innermost collision loop, over the segments of one other player.\<close>

fun hitsBody :: "player \<Rightarrow> segment list \<Rightarrow> bool" where
  "hitsBody p [] = False"
| "hitsBody p (s # ss) =
     (if jless (Math_hypot (jsub (p_x p) (seg_x s)) (jsub (p_y p) (seg_y s))) (Num 10) then True
      else hitsBody p ss)"

text \<open>The loop over \<open>otherId\<close>, which skips the player itself and stops at the first hit.\<close>

fun checkOthers :: "string \<Rightarrow> player \<Rightarrow> (string \<times> player) list \<Rightarrow> bool" where
  "checkOthers playerId p [] = False"
| "checkOthers playerId p ((otherId, other) # rest) =
     (if playerId = otherId then checkOthers playerId p rest
      else if hitsBody p (p_body other) then True
      else checkOthers playerId p rest)"

text \<open>The outer loop, which collects \<open>deadPlayers\<close>; \<open>ps\<close> is the whole player object.\<close>

fun detect :: "(string \<times> player) list \<Rightarrow> (string \<times> player) list \<Rightarrow> string list" where
  "detect ps [] = []"
| "detect ps ((playerId, p) # rest) =
     (if checkOthers playerId p ps then playerId # detect ps rest else detect ps rest)"

definition deadPlayers :: "(string \<times> player) list \<Rightarrow> string list" where
  "deadPlayers ps = detect ps ps"

section \<open>Messages\<close>

text \<open>
  \<^verbatim>\<open>socket.emit\<close> addresses one socket, \<^verbatim>\<open>io.to(name).emit\<close> the channel \<open>name\<close> (a
  socket.io room), which reaches the sockets that are in it.
\<close>

datatype target = ToSocket string | ToChannel string

datatype payload =
    RoomJoined string real
  | GameState "(string \<times> player) list" "food list"
  | Dead

type_synonym message = "target \<times> payload"

text \<open>\<^verbatim>\<open>p.body.forEach((seg, index) => ...)\<close>, from index \<open>i\<close> on.\<close>

fun bodyToFood :: "nat \<Rightarrow> color \<Rightarrow> segment list \<Rightarrow> food list" where
  "bodyToFood i c [] = []"
| "bodyToFood i c (seg # segs) =
     (if i mod 2 = 0
      then \<lparr>food_x = seg_x seg, food_y = seg_y seg, food_color = c\<rparr> # bodyToFood (Suc i) c segs
      else bodyToFood (Suc i) c segs)"

text \<open>
  \<^verbatim>\<open>deadPlayers.forEach\<close>. A missing \<^verbatim>\<open>players[pid]\<close> is \<^verbatim>\<open>undefined\<close>, whose
  \<^verbatim>\<open>.body\<close> throws: the result \<open>None\<close>.
\<close>

fun handleDeaths :: "string list \<Rightarrow> room \<Rightarrow> message list \<Rightarrow> (room \<times> message list) option" where
  "handleDeaths [] r out = Some (r, out)"
| "handleDeaths (pid # pids) r out =
     (case map_of (r_players r) pid of
        None \<Rightarrow> None
      | Some p \<Rightarrow>
          handleDeaths pids
            (r\<lparr>r_food := r_food r @ bodyToFood 0 (p_color p) (p_body p),
               r_players := AList.delete pid (r_players r)\<rparr>)
            (out @ [(ToChannel pid, Dead)]))"

text \<open>The body of \<^verbatim>\<open>for (const roomId in rooms)\<close>.\<close>

definition tickRoom :: "string \<Rightarrow> room \<Rightarrow> rng \<Rightarrow> (room \<times> message list \<times> rng) option" where
  "tickRoom roomId room g =
     (let tc = r_tickCount room + 1
      in case movePlayers tc (r_players room) (r_food room) g of
           None \<Rightarrow> None
         | Some (ps, fs, g1) \<Rightarrow>
             (let r1 = room\<lparr>r_tickCount := tc, r_players := ps, r_food := fs\<rparr>
              in case handleDeaths (deadPlayers ps) r1 [] of
                   None \<Rightarrow> None
                 | Some (r2, out) \<Rightarrow>
                     Some (r2, out @ [(ToChannel roomId, GameState (r_players r2) (r_food r2))], g1)))"

fun tickRooms :: "(string \<times> room) list \<Rightarrow> rng
    \<Rightarrow> ((string \<times> room) list \<times> message list \<times> rng) option" where
  "tickRooms [] g = Some ([], [], g)"
| "tickRooms ((roomId, room) # rest) g =
     (case tickRoom roomId room g of
        None \<Rightarrow> None
      | Some (room1, out1, g1) \<Rightarrow>
          (case tickRooms rest g1 of
             None \<Rightarrow> None
           | Some (rest1, out2, g2) \<Rightarrow> Some ((roomId, room1) # rest1, out1 @ out2, g2)))"

section \<open>The server\<close>

text \<open>
  \<open>rooms\<close> is the global registry, in insertion order. (JavaScript lists keys that are
  array indices, such as \<^verbatim>\<open>"1"\<close>, before the others; the order of the rooms decides only
  which room draws which random samples and the order of the messages.) \<open>socketRoomId\<close>
  holds the connected sockets and, for each, its \<^verbatim>\<open>socket.roomId\<close> (\<open>None\<close> while
  undefined). A room identifier is a string; the empty string is the falsy one.
  \<open>socketChannels\<close> gives the channels a socket is in: socket.io puts every socket into
  the channel named by its own id when it connects, \<^verbatim>\<open>socket.join(roomId)\<close> adds
  \<open>roomId\<close>, and a disconnection takes the socket out of all of them.
\<close>

record server =
  rooms :: "(string \<times> room) list"
  socketRoomId :: "string \<rightharpoonup> string option"
  socketChannels :: "string \<Rightarrow> string list"
  randomSource :: rng

definition init :: "rng \<Rightarrow> server" where
  "init g = \<lparr>rooms = [], socketRoomId = Map.empty, socketChannels = (\<lambda>sid. []),
     randomSource = g\<rparr>"

text \<open>Socket \<open>sid\<close> is connected and a message with this target reaches it.\<close>

fun receives :: "server \<Rightarrow> string \<Rightarrow> target \<Rightarrow> bool" where
  "receives s sid (ToSocket x) = (socketRoomId s sid \<noteq> None \<and> x = sid)"
| "receives s sid (ToChannel c) = (socketRoomId s sid \<noteq> None \<and> c \<in> set (socketChannels s sid))"

text \<open>
  \<open>rooms\<close> is a plain object, so a key that \<^verbatim>\<open>Object.prototype\<close> defines reads as a
  truthy value that is not a room.
\<close>

definition protoKeys :: "string list" where
  "protoKeys = [''constructor'', ''__proto__'', ''hasOwnProperty'', ''isPrototypeOf'',
     ''propertyIsEnumerable'', ''toLocaleString'', ''toString'', ''valueOf'',
     ''__defineGetter__'', ''__defineSetter__'', ''__lookupGetter__'', ''__lookupSetter__'']"

definition newPlayer :: "string \<Rightarrow> string \<Rightarrow> rng \<Rightarrow> player \<times> rng" where
  "newPlayer sid playerName g =
     (let (r1, g1) = random g;
          (r2, g2) = random g1;
          (r3, g3) = random g2
      in (\<lparr>p_id = sid, p_name = playerName,
           p_x = Num (r1 * 500 - 250), p_y = Num (r2 * 500 - 250),
           p_angle = Num 0, p_length = INITIAL_LENGTH, p_body = [],
           p_color = Hsl (r3 * 360), p_score = INITIAL_SCORE, p_isBoosting = False\<rparr>, g3))"

text \<open>The loop that pushes the initial body segments, \<open>n\<close> more of them.\<close>

fun initBody :: "nat \<Rightarrow> player \<Rightarrow> player" where
  "initBody 0 p = p"
| "initBody (Suc n) p = initBody n (p\<lparr>p_body := p_body p @ [\<lparr>seg_x = p_x p, seg_y = p_y p\<rparr>]\<rparr>)"

text \<open>
  The \<^verbatim>\<open>joinRoom\<close> handler of socket \<open>sid\<close>. \<open>None\<close> is the TypeError of writing into
  \<^verbatim>\<open>rooms[roomId].players\<close> when that is undefined. The first statement,
  \<^verbatim>\<open>socket.join(roomId)\<close>, is the update of \<open>socketChannels\<close>.
\<close>

definition joinRoom :: "string \<Rightarrow> string \<Rightarrow> string \<Rightarrow> nat \<Rightarrow> server \<Rightarrow> (server \<times> message list) option" where
  "joinRoom sid roomId playerName now s =
     (if roomId \<in> set protoKeys then None
      else
        (let (room, g1) = (case map_of (rooms s) roomId of
                             None \<Rightarrow> createRoom now (randomSource s)
                           | Some r \<Rightarrow> (r, randomSource s));
             (p, g2) = newPlayer sid playerName g1;
             room1 = room\<lparr>r_players := AList.update sid (initBody INITIAL_LENGTH p) (r_players room)\<rparr>
         in Some (s\<lparr>rooms := AList.update roomId room1 (rooms s),
                    socketRoomId := (socketRoomId s)(sid \<mapsto> Some roomId),
                    socketChannels := (socketChannels s)(sid := socketChannels s sid @ [roomId]),
                    randomSource := g2\<rparr>,
                  [(ToSocket sid, RoomJoined roomId MAP_SIZE)])))"

text \<open>
  The guard \<^verbatim>\<open>roomId && rooms[roomId] && rooms[roomId].players[socket.id]\<close> of the
  \<^verbatim>\<open>input\<close> and \<^verbatim>\<open>boost\<close> handlers: the empty string is falsy.
\<close>

definition guardedPlayer :: "string \<Rightarrow> server \<Rightarrow> (string \<times> room \<times> player) option" where
  "guardedPlayer sid s =
     (case socketRoomId s sid of
        Some (Some roomId) \<Rightarrow>
          (if roomId \<noteq> [] then
             (case map_of (rooms s) roomId of
                None \<Rightarrow> None
              | Some r \<Rightarrow>
                  (case map_of (r_players r) sid of
                     None \<Rightarrow> None
                   | Some p \<Rightarrow> Some (roomId, r, p)))
           else None)
      | _ \<Rightarrow> None)"

definition storePlayer :: "string \<Rightarrow> string \<Rightarrow> room \<Rightarrow> player \<Rightarrow> server \<Rightarrow> server" where
  "storePlayer roomId sid r p s =
     s\<lparr>rooms := AList.update roomId (r\<lparr>r_players := AList.update sid p (r_players r)\<rparr>) (rooms s)\<rparr>"

definition onInput :: "string \<Rightarrow> jsnum \<Rightarrow> server \<Rightarrow> server" where
  "onInput sid angle s =
     (case guardedPlayer sid s of
        None \<Rightarrow> s
      | Some (roomId, r, p) \<Rightarrow> storePlayer roomId sid r (p\<lparr>p_angle := angle\<rparr>) s)"

definition onBoost :: "string \<Rightarrow> bool \<Rightarrow> server \<Rightarrow> server" where
  "onBoost sid isBoosting s =
     (case guardedPlayer sid s of
        None \<Rightarrow> s
      | Some (roomId, r, p) \<Rightarrow> storePlayer roomId sid r (p\<lparr>p_isBoosting := isBoosting\<rparr>) s)"

text \<open>The \<^verbatim>\<open>disconnect\<close> handler; the socket is gone afterwards.\<close>

definition onDisconnect :: "string \<Rightarrow> server \<Rightarrow> server" where
  "onDisconnect sid s =
     (let s1 = s\<lparr>socketRoomId := (socketRoomId s)(sid := None),
                   socketChannels := (socketChannels s)(sid := [])\<rparr>
      in case socketRoomId s sid of
           Some (Some roomId) \<Rightarrow>
             (if roomId \<noteq> [] then
                (case map_of (rooms s) roomId of
                   None \<Rightarrow> s1
                 | Some r \<Rightarrow>
                     (let r1 = r\<lparr>r_players := AList.delete sid (r_players r)\<rparr>
                      in if length (map fst (r_players r1)) = 0
                         then s1\<lparr>rooms := AList.delete roomId (rooms s)\<rparr>
                         else s1\<lparr>rooms := AList.update roomId r1 (rooms s)\<rparr>))
              else s1)
         | _ \<Rightarrow> s1)"

text \<open>One firing of the interval timer: every room, in registry order.\<close>

definition tick :: "server \<Rightarrow> (server \<times> message list) option" where
  "tick s =
     (case tickRooms (rooms s) (randomSource s) of
        None \<Rightarrow> None
      | Some (rs, out, g) \<Rightarrow> Some (s\<lparr>rooms := rs, randomSource := g\<rparr>, out))"

text \<open>
  What can happen to the server. The handlers of a socket exist between its connection
  and its disconnection; an event of a socket that is not connected does nothing.
\<close>

datatype event =
    Connect string
  | JoinRoom string string string nat
  | Input string jsnum
  | Boost string bool
  | Disconnect string
  | Tick

fun exec :: "server \<Rightarrow> event \<Rightarrow> (server \<times> message list) option" where
  "exec s (Connect sid) =
     (if socketRoomId s sid = None
      then Some (s\<lparr>socketRoomId := (socketRoomId s)(sid \<mapsto> None),
                  socketChannels := (socketChannels s)(sid := [sid])\<rparr>, [])
      else Some (s, []))"
| "exec s (JoinRoom sid roomId playerName now) =
     (if socketRoomId s sid = None then Some (s, []) else joinRoom sid roomId playerName now s)"
| "exec s (Input sid angle) =
     (if socketRoomId s sid = None then Some (s, []) else Some (onInput sid angle s, []))"
| "exec s (Boost sid isBoosting) =
     (if socketRoomId s sid = None then Some (s, []) else Some (onBoost sid isBoosting s, []))"
| "exec s (Disconnect sid) =
     (if socketRoomId s sid = None then Some (s, []) else Some (onDisconnect sid s, []))"
| "exec s Tick = tick s"

text \<open>A run of events stops at the first one whose handler throws.\<close>

fun run :: "server \<Rightarrow> event list \<Rightarrow> server option" where
  "run s [] = Some s"
| "run s (e # es) = (case exec s e of None \<Rightarrow> None | Some (s1, out) \<Rightarrow> run s1 es)"

inductive reachable :: "server \<Rightarrow> bool" where
  reachable_init: "reachable (init g)"
| reachable_exec: "reachable s \<Longrightarrow> exec s e = Some (s1, out) \<Longrightarrow> reachable s1"

section \<open>The client\<close>

text \<open>
  The client holds what it parsed from snapshots. JSON has no \<^verbatim>\<open>NaN\<close>: a coordinate of a
  snapshot is a finite number, or \<^verbatim>\<open>null\<close> where the server had \<^verbatim>\<open>NaN\<close>, and the arithmetic
  of the client reads \<^verbatim>\<open>null\<close> as the number 0. So a coordinate of the client is a real.
  \<open>shown\<close> is a player object of the client.
\<close>

record shown =
  s_id :: string
  s_name :: string
  s_x :: real
  s_y :: real
  s_angle :: real
  s_length :: nat
  s_body :: "(real \<times> real) list"
  s_color :: color
  s_score :: int
  s_isBoosting :: bool

record client =
  myId :: "string option"
  players :: "(string \<times> shown) list"
  targetPlayers :: "(string \<times> shown) list"
  c_food :: "(real \<times> real \<times> color) list"
  camera_x :: real
  camera_y :: real
  isPlaying :: bool

text \<open>The \<^verbatim>\<open>gameState\<close> handler; the JSON round trip of the parsed players is a copy.\<close>

definition onGameState ::
    "(string \<times> shown) list \<Rightarrow> (real \<times> real \<times> color) list \<Rightarrow> client \<Rightarrow> client" where
  "onGameState statePlayers stateFood c =
     (let c1 = c\<lparr>targetPlayers := statePlayers, c_food := stateFood\<rparr>
      in if length (map fst (players c1)) = 0 then c1\<lparr>players := targetPlayers c1\<rparr> else c1)"

definition lerpFactor :: real where "lerpFactor = 0.1"

text \<open>The first loop of \<^verbatim>\<open>update\<close>, over the keys of \<open>targetPlayers\<close>.\<close>

fun interpolate :: "(string \<times> shown) list \<Rightarrow> (string \<times> shown) list \<Rightarrow> (string \<times> shown) list" where
  "interpolate [] ps = ps"
| "interpolate ((i, t) # ts) ps =
     (case map_of ps i of
        None \<Rightarrow> interpolate ts (AList.update i t ps)
      | Some p \<Rightarrow>
          interpolate ts
            (AList.update i
               (p\<lparr>s_x := s_x p + (s_x t - s_x p) * lerpFactor,
                  s_y := s_y p + (s_y t - s_y p) * lerpFactor,
                  s_angle := s_angle t, s_score := s_score t, s_name := s_name t,
                  s_color := s_color t, s_body := s_body t\<rparr>) ps))"

definition update :: "client \<Rightarrow> client" where
  "update c =
     (let ps1 = interpolate (targetPlayers c) (players c);
          ps2 = filter (\<lambda>(i, p). map_of (targetPlayers c) i \<noteq> None) ps1;
          c1 = c\<lparr>players := ps2\<rparr>
      in case myId c of
           None \<Rightarrow> c1
         | Some me \<Rightarrow>
             (case map_of ps2 me of
                None \<Rightarrow> c1
              | Some p \<Rightarrow>
                  if isPlaying c then c1\<lparr>camera_x := s_x p, camera_y := s_y p\<rparr> else c1))"

section \<open>Auxiliary notions for the statements\<close>

text \<open>The test of the food scan: the Food lies within the pickup radius of the head.\<close>

definition near :: "player \<Rightarrow> food \<Rightarrow> bool" where
  "near p f = jless (Math_hypot (jsub (p_x p) (food_x f)) (jsub (p_y p) (food_y f))) (Num 20)"

text \<open>What \<open>k\<close> pickups do to a player.\<close>

definition grow :: "nat \<Rightarrow> player \<Rightarrow> player" where
  "grow k p = p\<lparr>p_length := p_length p + k, p_score := p_score p + 10 * int k\<rparr>"

text \<open>The speed boost handling chooses, as a function of the player alone.\<close>

definition currentSpeed :: "player \<Rightarrow> real" where
  "currentSpeed p = (if p_isBoosting p \<and> p_score p > 10 then BOOST_SPEED else SPEED)"

text \<open>The player after its move of a tick: head advanced and clamped, body updated.\<close>

definition moved :: "player \<Rightarrow> player" where
  "moved p = updateBody (boundaryChecks (moveHead (currentSpeed p) p))"

text \<open>What holds of every player of a reachable server state.\<close>

definition player_ok :: "player \<Rightarrow> bool" where
  "player_ok p = (10 \<le> p_score p \<and> INITIAL_LENGTH \<le> p_length p \<and> p_body p \<noteq> []
      \<and> length (p_body p) \<le> p_length p
      \<and> hd (p_body p) = \<lparr>seg_x = p_x p, seg_y = p_y p\<rparr>)"

text \<open>An entry of the player object before and after a movement pass.\<close>

definition stepped :: "nat \<Rightarrow> string \<times> player \<Rightarrow> string \<times> player \<Rightarrow> bool" where
  "stepped tc a b = (fst b = fst a \<and> (\<exists>fa ga fb gb. playerTick tc (snd a) fa ga = Some (snd b, fb, gb)))"

text \<open>The Food a body segment turns into.\<close>

definition segmentFood :: "color \<Rightarrow> segment \<Rightarrow> food" where
  "segmentFood c seg = \<lparr>food_x = seg_x seg, food_y = seg_y seg, food_color = c\<rparr>"

text \<open>The Food that the death of player \<open>pid\<close> adds.\<close>

definition deathFood :: "(string \<times> player) list \<Rightarrow> string \<Rightarrow> food list" where
  "deathFood ps pid = (case map_of ps pid of None \<Rightarrow> [] | Some p \<Rightarrow> bodyToFood 0 (p_color p) (p_body p))"

text \<open>What holds of every room, and of the registry, of a reachable server state.\<close>

definition room_ok :: "room \<Rightarrow> bool" where
  "room_ok r = (100 \<le> length (r_food r) \<and> distinct (map fst (r_players r))
      \<and> list_all (\<lambda>(k, p). player_ok p) (r_players r))"

definition server_ok :: "server \<Rightarrow> bool" where
  "server_ok s = list_all (\<lambda>(k, r). room_ok r) (rooms s)"

text \<open>An entry of the registry before and after a tick.\<close>

definition roomStepped :: "string \<times> room \<Rightarrow> string \<times> room \<Rightarrow> bool" where
  "roomStepped a b = (fst b = fst a \<and> (\<exists>ga out gb. tickRoom (fst a) (snd a) ga = Some (snd b, out, gb)))"

text \<open>
  Concrete inputs. With \<^verbatim>\<open>Math.random()\<close> returning 0 every Food is seeded in the corner
  \<open>(-1000, -1000)\<close> and every player spawns at \<open>(-250, -250)\<close>.
\<close>

definition zeroRng :: rng where "zeroRng = (\<lambda>n. 0)"

definition cornerFood :: food where
  "cornerFood = \<lparr>food_x = Num (- 1000), food_y = Num (- 1000), food_color = Hsl 0\<rparr>"

definition spawnPlayer :: "string \<Rightarrow> string \<Rightarrow> player" where
  "spawnPlayer sid playerName =
     \<lparr>p_id = sid, p_name = playerName, p_x = Num (- 250), p_y = Num (- 250), p_angle = Num 0, p_length = 5,
      p_body = [\<lparr>seg_x = Num (- 250), seg_y = Num (- 250)\<rparr>, \<lparr>seg_x = Num (- 250), seg_y = Num (- 250)\<rparr>,
                \<lparr>seg_x = Num (- 250), seg_y = Num (- 250)\<rparr>, \<lparr>seg_x = Num (- 250), seg_y = Num (- 250)\<rparr>,
                \<lparr>seg_x = Num (- 250), seg_y = Num (- 250)\<rparr>], p_color = Hsl 0,
      p_score = 100, p_isBoosting = False\<rparr>"

definition soloRoom :: room where
  "soloRoom = \<lparr>r_players = [(''a'', spawnPlayer ''a'' ''ann'')],
     r_food = replicate 100 cornerFood, r_lastUpdate = 0, r_tickCount = 0\<rparr>"

definition soloServer :: server where
  "soloServer = \<lparr>rooms = [(''1'', soloRoom)], socketRoomId = [''a'' \<mapsto> Some ''1''],
     socketChannels = (\<lambda>sid. [])(''a'' := [''a'', ''1'']), randomSource = zeroRng\<rparr>"




definition movedPlayer :: "string \<Rightarrow> string \<Rightarrow> player" where
  "movedPlayer sid playerName =
     \<lparr>p_id = sid, p_name = playerName, p_x = Num (- 245), p_y = Num (- 250), p_angle = Num 0, p_length = 5,
      p_body = [\<lparr>seg_x = Num (- 245), seg_y = Num (- 250)\<rparr>, \<lparr>seg_x = Num (- 250), seg_y = Num (- 250)\<rparr>,
                \<lparr>seg_x = Num (- 250), seg_y = Num (- 250)\<rparr>, \<lparr>seg_x = Num (- 250), seg_y = Num (- 250)\<rparr>,
                \<lparr>seg_x = Num (- 250), seg_y = Num (- 250)\<rparr>],
      p_color = Hsl 0, p_score = 100, p_isBoosting = False\<rparr>"

definition tickedRoom :: room where
  "tickedRoom = \<lparr>r_players = [(''a'', movedPlayer ''a'' ''ann'')],
     r_food = replicate 100 cornerFood, r_lastUpdate = 0, r_tickCount = 1\<rparr>"

definition tickedServer :: server where
  "tickedServer = \<lparr>rooms = [(''1'', tickedRoom)], socketRoomId = [''a'' \<mapsto> Some ''1''],
     socketChannels = (\<lambda>sid. [])(''a'' := [''a'', ''1'']), randomSource = zeroRng\<rparr>"

definition nearFood :: food where
  "nearFood = \<lparr>food_x = Num (- 250), food_y = Num (- 250), food_color = Hsl 0\<rparr>"

definition duoRoom :: room where
  "duoRoom = \<lparr>r_players = [(''a'', spawnPlayer ''a'' ''ann''), (''b'', spawnPlayer ''b'' ''bob'')],
     r_food = replicate 100 cornerFood, r_lastUpdate = 0, r_tickCount = 0\<rparr>"

definition duoMoved :: "(string \<times> player) list" where
  "duoMoved = [(''a'', movedPlayer ''a'' ''ann''), (''b'', movedPlayer ''b'' ''bob'')]"

definition duoRemains :: "food list" where
  "duoRemains = [\<lparr>food_x = Num (- 245), food_y = Num (- 250), food_color = Hsl 0\<rparr>,
                 \<lparr>food_x = Num (- 250), food_y = Num (- 250), food_color = Hsl 0\<rparr>,
                 \<lparr>food_x = Num (- 250), food_y = Num (- 250), food_color = Hsl 0\<rparr>]"

definition duoRoomAfter :: room where
  "duoRoomAfter = \<lparr>r_players = [], r_food = replicate 100 cornerFood @ duoRemains @ duoRemains,
     r_lastUpdate = 0, r_tickCount = 1\<rparr>"

definition duoServer :: server where
  "duoServer = \<lparr>rooms = [(''1'', duoRoom)],
     socketRoomId = [''a'' \<mapsto> Some ''1'', ''b'' \<mapsto> Some ''1''],
     socketChannels = (\<lambda>sid. [])(''a'' := [''a'', ''1''], ''b'' := [''b'', ''1'']),
     randomSource = zeroRng\<rparr>"

definition duoEvents :: "event list" where
  "duoEvents = [Connect ''a'', Connect ''b'', JoinRoom ''a'' ''1'' ''ann'' 0,
                JoinRoom ''b'' ''1'' ''bob'' 0]"

text \<open>What a registry holds: per room its id, the ids of its players, its food count and its tick counter.\<close>

definition registrySummary :: "server \<Rightarrow> (string \<times> string list \<times> nat \<times> nat) list" where
  "registrySummary s = map (\<lambda>(k, r). (k, map fst (r_players r), length (r_food r), r_tickCount r)) (rooms s)"

definition trioEvents :: "event list" where
  "trioEvents = duoEvents @ [Tick, Connect ''c'', JoinRoom ''c'' ''1'' ''cy'' 7]"

text \<open>The head of \<open>a\<close> is within the collision radius of a body segment of \<open>b\<close>.\<close>

definition hits :: "player \<Rightarrow> player \<Rightarrow> bool" where
  "hits a b =
     (\<exists>seg\<in>set (p_body b).
        jless (Math_hypot (jsub (p_x a) (seg_x seg)) (jsub (p_y a) (seg_y seg))) (Num 10))"

definition chaserA :: player where
  "chaserA = \<lparr>p_id = ''a'', p_name = ''ann'', p_x = Num 24, p_y = Num (- 5), p_angle = Num (pi / 2), p_length = 5,
      p_body = [\<lparr>seg_x = Num 24, seg_y = Num (- 5)\<rparr>, \<lparr>seg_x = Num 24, seg_y = Num (- 5)\<rparr>, \<lparr>seg_x = Num 24, seg_y = Num (- 5)\<rparr>,
                \<lparr>seg_x = Num 24, seg_y = Num (- 5)\<rparr>, \<lparr>seg_x = Num 24, seg_y = Num (- 5)\<rparr>],
      p_color = Hsl 0, p_score = 100, p_isBoosting = False\<rparr>"

definition leaderB :: player where
  "leaderB = \<lparr>p_id = ''b'', p_name = ''bob'', p_x = Num 50, p_y = Num 0, p_angle = Num 0, p_length = 5,
      p_body = [\<lparr>seg_x = Num 50, seg_y = Num 0\<rparr>, \<lparr>seg_x = Num 45, seg_y = Num 0\<rparr>, \<lparr>seg_x = Num 40, seg_y = Num 0\<rparr>,
                \<lparr>seg_x = Num 35, seg_y = Num 0\<rparr>, \<lparr>seg_x = Num 30, seg_y = Num 0\<rparr>],
      p_color = Hsl 0, p_score = 100, p_isBoosting = False\<rparr>"

definition chaseRoom :: room where
  "chaseRoom = \<lparr>r_players = [(''a'', chaserA), (''b'', leaderB)],
     r_food = replicate 100 cornerFood, r_lastUpdate = 0, r_tickCount = 4\<rparr>"

definition chaseRoomAfter :: room where
  "chaseRoomAfter = \<lparr>r_players = [(''a'', moved chaserA), (''b'', moved leaderB)],
     r_food = replicate 100 cornerFood, r_lastUpdate = 0, r_tickCount = 5\<rparr>"






definition eaterA :: player where
  "eaterA = \<lparr>p_id = ''a'', p_name = ''ann'', p_x = Num 0, p_y = Num 0, p_angle = Num 0, p_length = 5,
      p_body = [\<lparr>seg_x = Num 0, seg_y = Num 0\<rparr>, \<lparr>seg_x = Num 0, seg_y = Num 0\<rparr>, \<lparr>seg_x = Num 0, seg_y = Num 0\<rparr>,
                \<lparr>seg_x = Num 0, seg_y = Num 0\<rparr>, \<lparr>seg_x = Num 0, seg_y = Num 0\<rparr>],
      p_color = Hsl 0, p_score = 100, p_isBoosting = False\<rparr>"

definition eaterB :: player where
  "eaterB = \<lparr>p_id = ''b'', p_name = ''bob'', p_x = Num 0, p_y = Num 30, p_angle = Num 0, p_length = 5,
      p_body = [\<lparr>seg_x = Num 0, seg_y = Num 30\<rparr>, \<lparr>seg_x = Num 0, seg_y = Num 30\<rparr>, \<lparr>seg_x = Num 0, seg_y = Num 30\<rparr>,
                \<lparr>seg_x = Num 0, seg_y = Num 30\<rparr>, \<lparr>seg_x = Num 0, seg_y = Num 30\<rparr>],
      p_color = Hsl 0, p_score = 100, p_isBoosting = False\<rparr>"

definition sharedFood :: food where
  "sharedFood = \<lparr>food_x = Num 5, food_y = Num 15, food_color = Hsl 0\<rparr>"

definition shareRoom :: room where
  "shareRoom = \<lparr>r_players = [(''a'', eaterA), (''b'', eaterB)],
     r_food = replicate 99 cornerFood @ [sharedFood], r_lastUpdate = 0, r_tickCount = 5\<rparr>"

definition fedA :: player where
  "fedA = \<lparr>p_id = ''a'', p_name = ''ann'', p_x = Num 5, p_y = Num 0, p_angle = Num 0, p_length = 6,
      p_body = [\<lparr>seg_x = Num 5, seg_y = Num 0\<rparr>, \<lparr>seg_x = Num 0, seg_y = Num 0\<rparr>, \<lparr>seg_x = Num 0, seg_y = Num 0\<rparr>,
                \<lparr>seg_x = Num 0, seg_y = Num 0\<rparr>, \<lparr>seg_x = Num 0, seg_y = Num 0\<rparr>],
      p_color = Hsl 0, p_score = 110, p_isBoosting = False\<rparr>"

definition unfedB :: player where
  "unfedB = \<lparr>p_id = ''b'', p_name = ''bob'', p_x = Num 5, p_y = Num 30, p_angle = Num 0, p_length = 5,
      p_body = [\<lparr>seg_x = Num 5, seg_y = Num 30\<rparr>, \<lparr>seg_x = Num 0, seg_y = Num 30\<rparr>, \<lparr>seg_x = Num 0, seg_y = Num 30\<rparr>,
                \<lparr>seg_x = Num 0, seg_y = Num 30\<rparr>, \<lparr>seg_x = Num 0, seg_y = Num 30\<rparr>],
      p_color = Hsl 0, p_score = 100, p_isBoosting = False\<rparr>"

definition shareRoomAfter :: room where
  "shareRoomAfter = \<lparr>r_players = [(''a'', fedA), (''b'', unfedB)],
     r_food = replicate 99 cornerFood @ [cornerFood], r_lastUpdate = 0, r_tickCount = 6\<rparr>"

text \<open>What one frame does to a known player \<open>p\<close> with target \<open>t\<close>.\<close>

definition lerp :: "shown \<Rightarrow> shown \<Rightarrow> shown" where
  "lerp p t = p\<lparr>s_x := s_x p + (s_x t - s_x p) * lerpFactor,
                 s_y := s_y p + (s_y t - s_y p) * lerpFactor,
                 s_angle := s_angle t, s_score := s_score t, s_name := s_name t,
                 s_color := s_color t, s_body := s_body t\<rparr>"

definition shownPlayer :: shown where
  "shownPlayer = \<lparr>s_id = ''a'', s_name = ''ann'', s_x = 5, s_y = 0, s_angle = 0, s_length = 5,
      s_body = [(5, 0)], s_color = Hsl 0, s_score = 100, s_isBoosting = False\<rparr>"

definition demoClient :: client where
  "demoClient = \<lparr>myId = Some ''a'', players = [(''a'', shownPlayer)],
     targetPlayers = [(''a'', shownPlayer)], c_food = [], camera_x = 5, camera_y = 0,
     isPlaying = True\<rparr>"

text \<open>The targets of the \<open>dead\<close> messages among the messages of a tick.\<close>

definition deadTargets :: "message list \<Rightarrow> target list" where
  "deadTargets out = map fst (filter (\<lambda>m. snd m = Dead) out)"

text \<open>
  A third socket, \<open>m\<close>, has joined the room it named after the socket id of player \<open>a\<close>.
\<close>

definition spyEvents :: "event list" where
  "spyEvents = duoEvents @ [Connect ''m'', JoinRoom ''m'' ''a'' ''mal'' 0]"

definition spyRoom :: room where
  "spyRoom = \<lparr>r_players = [(''m'', spawnPlayer ''m'' ''mal'')],
     r_food = replicate 100 cornerFood, r_lastUpdate = 0, r_tickCount = 0\<rparr>"

definition spyServer :: server where
  "spyServer = \<lparr>rooms = [(''1'', duoRoom), (''a'', spyRoom)],
     socketRoomId = [''a'' \<mapsto> Some ''1'', ''b'' \<mapsto> Some ''1'', ''m'' \<mapsto> Some ''a''],
     socketChannels = (\<lambda>sid. [])(''a'' := [''a'', ''1''], ''b'' := [''b'', ''1''], ''m'' := [''m'', ''a'']),
     randomSource = zeroRng\<rparr>"

text \<open>
  Socket \<open>a\<close> joins room 1, then room 2, and disconnects: its player stays in room 1.
  Then \<open>b\<close> joins room 1.
\<close>

definition strayEvents :: "event list" where
  "strayEvents = [Connect ''a'', JoinRoom ''a'' ''1'' ''ann'' 0, JoinRoom ''a'' ''2'' ''ann'' 0,
     Disconnect ''a'', Connect ''b'', JoinRoom ''b'' ''1'' ''bob'' 0]"

definition strayServer :: server where
  "strayServer = \<lparr>rooms = [(''1'', duoRoom)],
     socketRoomId = [''b'' \<mapsto> Some ''1''],
     socketChannels = (\<lambda>sid. [])(''a'' := [], ''b'' := [''b'', ''1'']),
     randomSource = zeroRng\<rparr>"

text \<open>\<^verbatim>\<open>a <= b\<close>, and the bound of the arena on one coordinate.\<close>

fun jle :: "jsnum \<Rightarrow> jsnum \<Rightarrow> bool" where
  "jle (Num a) (Num b) = (a \<le> b)"
| "jle a b = False"

definition inArena :: "jsnum \<Rightarrow> bool" where
  "inArena v = (jle (Num (- MAP_SIZE / 2)) v \<and> jle v (Num (MAP_SIZE / 2)))"

text \<open>Where the players of the registry are.\<close>

definition registryPositions :: "server \<Rightarrow> (string \<times> (string \<times> jsnum \<times> jsnum \<times> bool \<times> bool) list) list" where
  "registryPositions s =
     map (\<lambda>(k, r). (k, map (\<lambda>(pid, p). (pid, p_x p, p_y p, inArena (p_x p), inArena (p_y p)))
                          (r_players r))) (rooms s)"

text \<open>A server with the one room \<open>1\<close> and in it the one player of socket \<open>a\<close>.\<close>

definition loneServer :: "player \<Rightarrow> nat \<Rightarrow> server" where
  "loneServer p tc =
     \<lparr>rooms = [(''1'', \<lparr>r_players = [(''a'', p)], r_food = replicate 100 cornerFood,
                          r_lastUpdate = 0, r_tickCount = tc\<rparr>)],
      socketRoomId = [''a'' \<mapsto> Some ''1''],
      socketChannels = (\<lambda>sid. [])(''a'' := [''a'', ''1'']), randomSource = zeroRng\<rparr>"

definition lostOnce :: player where
  "lostOnce = \<lparr>p_id = ''a'', p_name = ''ann'', p_x = NaN, p_y = NaN, p_angle = NaN, p_length = 5,
      p_body = [\<lparr>seg_x = NaN, seg_y = NaN\<rparr>, \<lparr>seg_x = Num (- 250), seg_y = Num (- 250)\<rparr>,
                \<lparr>seg_x = Num (- 250), seg_y = Num (- 250)\<rparr>, \<lparr>seg_x = Num (- 250), seg_y = Num (- 250)\<rparr>,
                \<lparr>seg_x = Num (- 250), seg_y = Num (- 250)\<rparr>],
      p_color = Hsl 0, p_score = 100, p_isBoosting = False\<rparr>"

definition lostTwice :: player where
  "lostTwice = \<lparr>p_id = ''a'', p_name = ''ann'', p_x = NaN, p_y = NaN, p_angle = Num 0, p_length = 5,
      p_body = [\<lparr>seg_x = NaN, seg_y = NaN\<rparr>, \<lparr>seg_x = NaN, seg_y = NaN\<rparr>,
                \<lparr>seg_x = Num (- 250), seg_y = Num (- 250)\<rparr>, \<lparr>seg_x = Num (- 250), seg_y = Num (- 250)\<rparr>,
                \<lparr>seg_x = Num (- 250), seg_y = Num (- 250)\<rparr>],
      p_color = Hsl 0, p_score = 100, p_isBoosting = False\<rparr>"

section \<open>Properties\<close>

declare popWhile.simps [simp del]

lemma popWhile_take: "popWhile n b = take n b"
proof (induction n b rule: popWhile.induct)
  case (1 n b)
  show ?case
  proof (cases "n < length b")
    case True
    then have "popWhile n b = popWhile n (butlast b)" by (subst popWhile.simps) simp
    also have "\<dots> = take n (butlast b)" using 1 True by simp
    also have "\<dots> = take n b" using True by (simp add: take_butlast)
    finally show ?thesis .
  next
    case False
    then show ?thesis by (subst popWhile.simps) simp
  qed
qed

lemma sqrt_less: "0 < r \<Longrightarrow> (sqrt v < r) = (v < r * r)"
proof -
  assume r: "0 < r"
  have "sqrt (r * r) = r" using r by simp
  then have "(sqrt v < r) = (sqrt v < sqrt (r * r))" by simp
  then show ?thesis by (simp only: real_sqrt_less_iff)
qed

lemma near_grow: "near (grow k p) f = near p f" by (simp add: near_def grow_def)

lemma foodLoop_split:
  "foodLoop (length pre) p (pre @ post) g =
     Some (grow (length (filter (near p) pre)) p,
           seedFood (length (filter (near p) pre)) (filter (\<lambda>f. \<not> near p f) pre @ post) g)"
proof (induction pre arbitrary: p post g rule: rev_induct)
  case Nil
  show ?case by (simp add: grow_def)
next
  case (snoc f pre)
  show ?case
  proof (cases "near p f")
    case True
    obtain nf g1 where gen: "generateFood g = (nf, g1)" by (cases "generateFood g")
    let ?p1 = "p\<lparr>p_length := p_length p + 1, p_score := p_score p + 10\<rparr>"
    let ?k = "length (filter (near p) pre)"
    have np: "near ?p1 = near p" by (simp add: fun_eq_iff near_def)
    have "foodLoop (length (pre @ [f])) p ((pre @ [f]) @ post) g
            = foodLoop (length pre) ?p1 (pre @ (post @ [nf])) g1"
      using True gen by (simp add: near_def splice1_def Let_def nth_append)
    also have "\<dots> = Some (grow ?k ?p1,
           seedFood ?k (filter (\<lambda>f. \<not> near p f) pre @ (post @ [nf])) g1)"
      using snoc.IH [of ?p1 "post @ [nf]" g1] by (simp only: np)
    also have "grow ?k ?p1 = grow (Suc ?k) p" by (simp add: grow_def)
    finally show ?thesis using True gen by simp
  next
    case False
    have "foodLoop (length (pre @ [f])) p ((pre @ [f]) @ post) g
            = foodLoop (length pre) p (pre @ ([f] @ post)) g"
      using False by (simp add: near_def Let_def nth_append)
    also have "\<dots> = Some (grow (length (filter (near p) pre)) p,
           seedFood (length (filter (near p) pre)) (filter (\<lambda>f. \<not> near p f) pre @ ([f] @ post)) g)"
      by (rule snoc.IH)
    finally show ?thesis using False by simp
  qed
qed

lemma foodLoop_eq:
  "foodLoop (length fs) p fs g =
     Some (grow (length (filter (near p) fs)) p,
           seedFood (length (filter (near p) fs)) (filter (\<lambda>f. \<not> near p f) fs) g)"
  using foodLoop_split [of fs p "[]" g] by simp

lemma seedFood_length: "length (fst (seedFood n fs g)) = length fs + n"
  by (induction n fs g rule: seedFood.induct) (simp_all add: split_def Let_def)

lemma seedFood_append:
  "seedFood n fs g = (fs @ fst (seedFood n [] g), snd (seedFood n [] g))"
proof (induction n arbitrary: fs g)
  case 0
  show ?case by simp
next
  case (Suc n)
  obtain f g1 where gen: "generateFood g = (f, g1)" by (cases "generateFood g")
  have "seedFood (Suc n) fs g = seedFood n (fs @ [f]) g1" using gen by simp
  also have "\<dots> = ((fs @ [f]) @ fst (seedFood n [] g1), snd (seedFood n [] g1))"
    by (rule Suc.IH)
  also have "seedFood n [f] g1 = ([f] @ fst (seedFood n [] g1), snd (seedFood n [] g1))"
    by (rule Suc.IH)
  then have "fst (seedFood (Suc n) [] g) = [f] @ fst (seedFood n [] g1)"
    and "snd (seedFood (Suc n) [] g) = snd (seedFood n [] g1)"
    using gen by simp_all
  ultimately show ?case by simp
qed

lemma handleBoost_speed: "fst (handleBoost tc p fs g) = currentSpeed p"
  by (simp add: handleBoost_def currentSpeed_def Let_def split_def)

lemma handleBoost_player:
  "fst (snd (handleBoost tc p fs g)) =
     (if p_isBoosting p \<and> 10 < p_score p
      then (if tc mod 5 = 0 then p\<lparr>p_score := p_score p - 1\<rparr> else p)
      else p\<lparr>p_isBoosting := False\<rparr>)"
  by (simp add: handleBoost_def Let_def split_def)

lemma handleBoost_food:
  "fst (snd (snd (handleBoost tc p fs g))) =
     (if p_isBoosting p \<and> 10 < p_score p \<and> tc mod 5 = 0 \<and> p_body p \<noteq> []
      then fs @ [\<lparr>food_x = jadd (seg_x (last (p_body p))) (Num (g 0 * 10 - 5)),
                  food_y = jadd (seg_y (last (p_body p))) (Num (g 1 * 10 - 5)),
                  food_color = p_color p\<rparr>]
      else fs)"
  by (simp add: handleBoost_def Let_def split_def random_def)

lemma moved_fields:
  "p_score (updateBody (boundaryChecks (moveHead v p))) = p_score p"
  "p_length (updateBody (boundaryChecks (moveHead v p))) = p_length p"
  "p_isBoosting (updateBody (boundaryChecks (moveHead v p))) = p_isBoosting p"
  "p_color (updateBody (boundaryChecks (moveHead v p))) = p_color p"
  "p_id (updateBody (boundaryChecks (moveHead v p))) = p_id p"
  by (simp_all add: updateBody_def boundaryChecks_def moveHead_def Let_def)

lemma moved_body:
  "p_body (updateBody q) = take (p_length q) (\<lparr>seg_x = p_x q, seg_y = p_y q\<rparr> # p_body q)"
  "p_x (updateBody q) = p_x q" "p_y (updateBody q) = p_y q" "p_length (updateBody q) = p_length q"
  by (simp_all add: updateBody_def popWhile_take)

lemma bm_fields:
  "p_body (boundaryChecks (moveHead v p)) = p_body p"
  "p_length (boundaryChecks (moveHead v p)) = p_length p"
  by (simp_all add: boundaryChecks_def moveHead_def Let_def)

text \<open>position and body after the move depend on the speed and on x, y, angle, body, length only\<close>
lemma kin_cong:
  assumes "p_x a = p_x b" "p_y a = p_y b" "p_angle a = p_angle b" "p_body a = p_body b" "p_length a = p_length b"
  shows "p_x (updateBody (boundaryChecks (moveHead v a))) = p_x (updateBody (boundaryChecks (moveHead v b)))"
    and "p_y (updateBody (boundaryChecks (moveHead v a))) = p_y (updateBody (boundaryChecks (moveHead v b)))"
    and "p_body (updateBody (boundaryChecks (moveHead v a))) = p_body (updateBody (boundaryChecks (moveHead v b)))"
  using assms by (simp_all add: updateBody_def boundaryChecks_def moveHead_def Let_def)

lemma playerTick_eq:
  "playerTick tc p fs g =
     (let p1 = fst (snd (handleBoost tc p fs g));
          fs1 = fst (snd (snd (handleBoost tc p fs g)));
          g1 = snd (snd (snd (handleBoost tc p fs g)));
          p2 = updateBody (boundaryChecks (moveHead (currentSpeed p) p1));
          k = length (filter (near p2) fs1)
      in Some (grow k p2, seedFood k (filter (\<lambda>f. \<not> near p2 f) fs1) g1))"
  by (simp add: playerTick_def split_def Let_def foodLoop_eq handleBoost_speed)

lemma playerTick_kin:
  assumes "playerTick tc p fs g = Some (p', fs', g')"
  shows "p_x p' = p_x (moved p) \<and> p_y p' = p_y (moved p) \<and> p_body p' = p_body (moved p)"
proof -
  let ?p1 = "fst (snd (handleBoost tc p fs g))"
  let ?p2 = "updateBody (boundaryChecks (moveHead (currentSpeed p) ?p1))"
  have same: "p_x ?p1 = p_x p" "p_y ?p1 = p_y p" "p_angle ?p1 = p_angle p"
    "p_body ?p1 = p_body p" "p_length ?p1 = p_length p"
    by (simp_all add: handleBoost_player)
  from assms obtain k where "p' = grow k ?p2"
    by (auto simp: playerTick_eq Let_def)
  then have "p_x p' = p_x ?p2" "p_y p' = p_y ?p2" "p_body p' = p_body ?p2"
    by (simp_all add: grow_def)
  then show ?thesis using kin_cong [OF same] by (simp add: moved_def)
qed

lemma playerTick_total: "\<exists>res. playerTick tc p fs g = Some res"
  by (simp add: playerTick_eq Let_def)

lemma playerTick_food_length:
  assumes "playerTick tc p fs g = Some (p', fs', g')"
  shows "length fs \<le> length fs'"
proof -
  let ?p1 = "fst (snd (handleBoost tc p fs g))"
  let ?fs1 = "fst (snd (snd (handleBoost tc p fs g)))"
  let ?g1 = "snd (snd (snd (handleBoost tc p fs g)))"
  let ?p2 = "updateBody (boundaryChecks (moveHead (currentSpeed p) ?p1))"
  let ?k = "length (filter (near ?p2) ?fs1)"
  have a: "length fs \<le> length ?fs1" by (simp add: handleBoost_food)
  have "playerTick tc p fs g = Some (grow ?k ?p2, seedFood ?k (filter (\<lambda>f. \<not> near ?p2 f) ?fs1) ?g1)"
    by (simp add: playerTick_eq Let_def)
  with assms have "seedFood ?k (filter (\<lambda>f. \<not> near ?p2 f) ?fs1) ?g1 = (fs', g')" by simp
  then have "fs' = fst (seedFood ?k (filter (\<lambda>f. \<not> near ?p2 f) ?fs1) ?g1)" by simp
  then have "length fs' = length (filter (\<lambda>f. \<not> near ?p2 f) ?fs1) + length (filter (near ?p2) ?fs1)"
    by (simp add: seedFood_length)
  also have "\<dots> = length ?fs1" using sum_length_filter_compl [of "near ?p2" ?fs1] by simp
  finally show ?thesis using a by simp
qed

lemma playerTick_ok:
  assumes "playerTick tc p fs g = Some (p', fs', g')" and "player_ok p"
  shows "player_ok p'"
proof -
  let ?p1 = "fst (snd (handleBoost tc p fs g))"
  let ?p2 = "updateBody (boundaryChecks (moveHead (currentSpeed p) ?p1))"
  have p1: "10 \<le> p_score ?p1" "p_length ?p1 = p_length p"
    using assms(2) by (auto simp: handleBoost_player player_ok_def)
  have len: "0 < p_length p" using assms(2) by (simp add: player_ok_def INITIAL_LENGTH_def)
  have p2: "10 \<le> p_score ?p2" "p_length ?p2 = p_length p"
    using p1 by (simp_all add: moved_fields)
  have b2: "p_body ?p2 \<noteq> []" "length (p_body ?p2) \<le> p_length p"
    "hd (p_body ?p2) = \<lparr>seg_x = p_x ?p2, seg_y = p_y ?p2\<rparr>"
    using len p1(2) by (simp_all add: moved_body bm_fields take_Cons')
  from assms(1) obtain k where "p' = grow k ?p2"
    by (auto simp: playerTick_eq Let_def)
  then show ?thesis using p2 b2 assms(2)
    by (simp add: player_ok_def grow_def)
qed

lemma movePlayers_total: "\<exists>res. movePlayers tc ps fs g = Some res"
proof (induction ps arbitrary: fs g)
  case Nil
  show ?case by simp
next
  case (Cons a ps)
  obtain k p where a: "a = (k, p)" by (cases a)
  obtain p1 fs1 g1 where pt: "playerTick tc p fs g = Some (p1, fs1, g1)"
    using playerTick_total [of tc p fs g] by auto
  obtain res where "movePlayers tc ps fs1 g1 = Some res" using Cons.IH by blast
  then show ?case using a pt by (cases res) simp
qed

lemma movePlayers_props:
  "movePlayers tc ps fs g = Some (ps', fs', g') \<Longrightarrow>
     map fst ps' = map fst ps \<and> length fs \<le> length fs' \<and> list_all2 (stepped tc) ps ps'"
proof (induction ps arbitrary: fs g ps' fs' g')
  case Nil
  then show ?case by simp
next
  case (Cons a ps)
  obtain k p where a: "a = (k, p)" by (cases a)
  from Cons.prems a obtain p1 fs1 g1 rest1 where
    pt: "playerTick tc p fs g = Some (p1, fs1, g1)" and
    mv: "movePlayers tc ps fs1 g1 = Some (rest1, fs', g')" and
    ps': "ps' = (k, p1) # rest1"
    by (auto split: option.splits)
  from Cons.IH [OF mv] have ih: "map fst rest1 = map fst ps" "length fs1 \<le> length fs'"
    "list_all2 (stepped tc) ps rest1" by simp_all
  have "length fs \<le> length fs1" using pt by (rule playerTick_food_length)
  moreover have "stepped tc a (k, p1)" using pt a by (auto simp: stepped_def)
  ultimately show ?case using ih ps' a by simp
qed

lemma hitsBody_iff:
  "hitsBody p b =
     (\<exists>s\<in>set b. jless (Math_hypot (jsub (p_x p) (seg_x s)) (jsub (p_y p) (seg_y s))) (Num 10))"
  by (induction b) simp_all

lemma checkOthers_iff:
  "checkOthers k p ps = (\<exists>(oid, other)\<in>set ps. oid \<noteq> k \<and> hitsBody p (p_body other))"
  by (induction k p ps rule: checkOthers.induct) simp_all

lemma detect_eq: "detect all ps = map fst (filter (\<lambda>(k, p). checkOthers k p all) ps)"
  by (induction all ps rule: detect.induct) simp_all

lemma deadPlayers_subset: "set (deadPlayers ps) \<subseteq> fst ` set ps"
  by (auto simp: deadPlayers_def detect_eq)

lemma deadPlayers_distinct: "distinct (map fst ps) \<Longrightarrow> distinct (deadPlayers ps)"
  by (simp add: deadPlayers_def detect_eq distinct_map_filter)

lemma deadPlayers_iff:
  assumes "distinct (map fst ps)" and "(k, p) \<in> set ps"
  shows "k \<in> set (deadPlayers ps) = checkOthers k p ps"
proof -
  have uniq: "\<And>q. (k, q) \<in> set ps \<Longrightarrow> q = p"
    using assms eq_key_imp_eq_value by fastforce
  have "k \<in> set (deadPlayers ps) = (\<exists>q. (k, q) \<in> set ps \<and> checkOthers k q ps)"
    by (force simp: deadPlayers_def detect_eq)
  then show ?thesis using uniq assms(2) by blast
qed

lemma bodyToFood_gen:
  "bodyToFood i c b = map (\<lambda>j. segmentFood c (b ! j)) (filter (\<lambda>j. even (i + j)) [0..<length b])"
proof (induction b arbitrary: i)
  case Nil
  show ?case by simp
next
  case (Cons seg b)
  have upt: "[0..<length (seg # b)] = 0 # map Suc [0..<length b]"
    by (simp add: upt_conv_Cons map_Suc_upt del: upt_Suc)
  show ?case
    unfolding upt
    by (simp add: Cons.IH filter_map comp_def segmentFood_def even_iff_mod_2_eq_zero)
qed

lemma bodyToFood_even:
  "bodyToFood 0 c b = map (\<lambda>j. segmentFood c (b ! j)) (filter even [0..<length b])"
  using bodyToFood_gen [of 0 c b] by simp

lemma delete_filter: "AList.delete k al = filter (\<lambda>(k', v). k' \<noteq> k) al"
  by (auto simp: AList.delete_eq intro: filter_cong)

lemma handleDeaths_eq:
  assumes "distinct pids" and "set pids \<subseteq> fst ` set (r_players r)"
  shows "handleDeaths pids r out =
     Some (r\<lparr>r_food := r_food r @ concat (map (deathFood (r_players r)) pids),
             r_players := filter (\<lambda>(k, p). k \<notin> set pids) (r_players r)\<rparr>,
           out @ map (\<lambda>pid. (ToChannel pid, Dead)) pids)"
  using assms
proof (induction pids arbitrary: r out)
  case Nil
  then show ?case by simp
next
  case (Cons pid pids)
  from Cons.prems obtain p where p: "map_of (r_players r) pid = Some p"
    by (cases "map_of (r_players r) pid") (auto simp: map_of_eq_None_iff)
  let ?r1 = "r\<lparr>r_food := r_food r @ bodyToFood 0 (p_color p) (p_body p),
               r_players := AList.delete pid (r_players r)\<rparr>"
  have d: "distinct pids" and notin: "pid \<notin> set pids" using Cons.prems by simp_all
  have sub: "set pids \<subseteq> fst ` set (r_players ?r1)"
    using Cons.prems notin by (force simp: delete_filter)
  have same: "map (deathFood (r_players ?r1)) pids = map (deathFood (r_players r)) pids"
    using notin by (auto simp: deathFood_def AList.delete_conv')
  have flt: "filter (\<lambda>(k, p). k \<notin> set pids) (AList.delete pid (r_players r))
      = filter (\<lambda>(k, p). k \<notin> set (pid # pids)) (r_players r)"
    by (auto simp: delete_filter intro: filter_cong)
  have hd: "deathFood (r_players r) pid = bodyToFood 0 (p_color p) (p_body p)"
    using p by (simp add: deathFood_def)
  have "handleDeaths (pid # pids) r out = handleDeaths pids ?r1 (out @ [(ToChannel pid, Dead)])"
    using p by simp
  also have "\<dots> = Some (?r1\<lparr>r_food := r_food ?r1 @ concat (map (deathFood (r_players ?r1)) pids),
             r_players := filter (\<lambda>(k, p). k \<notin> set pids) (r_players ?r1)\<rparr>,
           (out @ [(ToChannel pid, Dead)]) @ map (\<lambda>pid. (ToChannel pid, Dead)) pids)"
    by (rule Cons.IH [OF d sub])
  finally show ?case
    unfolding same using flt by (simp add: hd)
qed

lemma tickRoom_eq:
  assumes "distinct (map fst (r_players r))"
    and "movePlayers (r_tickCount r + 1) (r_players r) (r_food r) g = Some (ps, fs, g1)"
  shows "tickRoom rid r g =
     Some (r\<lparr>r_tickCount := r_tickCount r + 1,
             r_players := filter (\<lambda>(k, p). k \<notin> set (deadPlayers ps)) ps,
             r_food := fs @ concat (map (deathFood ps) (deadPlayers ps))\<rparr>,
           map (\<lambda>pid. (ToChannel pid, Dead)) (deadPlayers ps)
             @ [(ToChannel rid, GameState (filter (\<lambda>(k, p). k \<notin> set (deadPlayers ps)) ps)
                                          (fs @ concat (map (deathFood ps) (deadPlayers ps))))],
           g1)"
proof -
  have keys: "map fst ps = map fst (r_players r)"
    using movePlayers_props [OF assms(2)] by simp
  let ?r1 = "r\<lparr>r_tickCount := r_tickCount r + 1, r_players := ps, r_food := fs\<rparr>"
  have d: "distinct (deadPlayers ps)"
    using assms(1) keys by (simp add: deadPlayers_distinct)
  have sub: "set (deadPlayers ps) \<subseteq> fst ` set (r_players ?r1)"
    using deadPlayers_subset [of ps] by simp
  show ?thesis
    using assms(2) handleDeaths_eq [OF d sub, of "[]"]
    by (simp add: tickRoom_def Let_def)
qed

lemma tickRoom_total:
  assumes "distinct (map fst (r_players r))"
  shows "\<exists>res. tickRoom rid r g = Some res"
proof -
  obtain ps fs g1 where "movePlayers (r_tickCount r + 1) (r_players r) (r_food r) g = Some (ps, fs, g1)"
    using movePlayers_total [of "r_tickCount r + 1" "r_players r" "r_food r" g] by (metis prod_cases3)
  then show ?thesis using tickRoom_eq [OF assms] by blast
qed

lemma stepped_ok: "list_all2 (stepped tc) ps ps' \<Longrightarrow> list_all (\<lambda>(k, p). player_ok p) ps
    \<Longrightarrow> list_all (\<lambda>(k, p). player_ok p) ps'"
proof (induction rule: list_all2_induct)
  case Nil
  show ?case by simp
next
  case (Cons a as b bs)
  from Cons.hyps(1) obtain fa ga fb gb where "playerTick tc (snd a) fa ga = Some (snd b, fb, gb)"
    by (auto simp: stepped_def)
  moreover have "player_ok (snd a)" using Cons.prems by (cases a) simp
  ultimately have "player_ok (snd b)" by (rule playerTick_ok)
  then show ?case using Cons by (cases b) simp
qed

lemma tickRoom_ok:
  assumes t: "tickRoom rid r g = Some (r', out, g')" and ok: "room_ok r"
  shows "room_ok r' \<and> length (r_food r) \<le> length (r_food r')"
proof -
  have dk: "distinct (map fst (r_players r))" using ok by (simp add: room_ok_def)
  obtain ps fs g1 where mv: "movePlayers (r_tickCount r + 1) (r_players r) (r_food r) g = Some (ps, fs, g1)"
    using movePlayers_total [of "r_tickCount r + 1" "r_players r" "r_food r" g] by (metis prod_cases3)
  from movePlayers_props [OF mv] have keys: "map fst ps = map fst (r_players r)"
    and fl: "length (r_food r) \<le> length fs" and st: "list_all2 (stepped (r_tickCount r + 1)) (r_players r) ps"
    by simp_all
  have pok: "list_all (\<lambda>(k, p). player_ok p) ps"
    using stepped_ok [OF st] ok by (simp add: room_ok_def)
  have r': "r' = r\<lparr>r_tickCount := r_tickCount r + 1,
             r_players := filter (\<lambda>(k, p). k \<notin> set (deadPlayers ps)) ps,
             r_food := fs @ concat (map (deathFood ps) (deadPlayers ps))\<rparr>"
    using t tickRoom_eq [OF dk mv, of rid] by simp
  have "distinct (map fst (filter (\<lambda>(k, p). k \<notin> set (deadPlayers ps)) ps))"
    using dk keys by (simp add: distinct_map_filter)
  moreover have "list_all (\<lambda>(k, p). player_ok p) (filter (\<lambda>(k, p). k \<notin> set (deadPlayers ps)) ps)"
    using pok by (simp add: list_all_iff)
  moreover have "100 \<le> length (r_food r)" using ok by (simp add: room_ok_def)
  ultimately show ?thesis using fl by (simp add: r' room_ok_def)
qed

lemma tickRooms_props:
  "tickRooms rs g = Some (rs', out, g') \<Longrightarrow> list_all2 roomStepped rs rs'"
proof (induction rs arbitrary: g rs' out g')
  case Nil
  then show ?case by simp
next
  case (Cons a rs)
  obtain k r where a: "a = (k, r)" by (cases a)
  from Cons.prems a obtain r1 out1 g1 rest1 out2 where
    t: "tickRoom k r g = Some (r1, out1, g1)" and
    ts: "tickRooms rs g1 = Some (rest1, out2, g')" and
    rs': "rs' = (k, r1) # rest1"
    by (auto split: option.splits)
  have "roomStepped a (k, r1)" using t a by (auto simp: roomStepped_def)
  then show ?case using Cons.IH [OF ts] rs' by simp
qed

lemma tickRooms_total:
  "list_all (\<lambda>(k, r). room_ok r) rs \<Longrightarrow> \<exists>res. tickRooms rs g = Some res"
proof (induction rs arbitrary: g)
  case Nil
  show ?case by simp
next
  case (Cons a rs)
  obtain k r where a: "a = (k, r)" by (cases a)
  have "distinct (map fst (r_players r))" using Cons.prems a by (simp add: room_ok_def)
  then obtain r1 out1 g1 where t: "tickRoom k r g = Some (r1, out1, g1)"
    using tickRoom_total [of r k g] by (metis prod_cases3)
  have "list_all (\<lambda>(k, r). room_ok r) rs" using Cons.prems by simp
  from Cons.IH [OF this] obtain res where "tickRooms rs g1 = Some res" by blast
  then show ?case using a t by (cases res) simp
qed

lemma roomStepped_ok:
  "list_all2 roomStepped rs rs' \<Longrightarrow> list_all (\<lambda>(k, r). room_ok r) rs
     \<Longrightarrow> list_all (\<lambda>(k, r). room_ok r) rs'"
proof (induction rule: list_all2_induct)
  case Nil
  show ?case by simp
next
  case (Cons a as b bs)
  from Cons.hyps(1) obtain ga out gb where "tickRoom (fst a) (snd a) ga = Some (snd b, out, gb)"
    by (auto simp: roomStepped_def)
  moreover have "room_ok (snd a)" using Cons.prems by (cases a) simp
  ultimately have "room_ok (snd b)" using tickRoom_ok by blast
  then show ?case using Cons by (cases b) simp
qed

lemma list_all_update:
  "P (k, v) \<Longrightarrow> list_all P al \<Longrightarrow> list_all P (AList.update k v al)"
  by (induction al) auto

lemma list_all_delete: "list_all P al \<Longrightarrow> list_all P (AList.delete k al)"
  by (simp add: delete_filter list_all_iff)

lemma initBody_eq:
  "initBody n p = p\<lparr>p_body := p_body p @ replicate n \<lparr>seg_x = p_x p, seg_y = p_y p\<rparr>\<rparr>"
proof (induction n arbitrary: p)
  case 0
  show ?case by simp
next
  case (Suc n)
  show ?case by (simp add: Suc.IH replicate_append_same)
qed

lemma newPlayer_ok: "player_ok (initBody INITIAL_LENGTH (fst (newPlayer sid playerName g)))"
  by (simp add: initBody_eq newPlayer_def player_ok_def split_def Let_def
      INITIAL_LENGTH_def INITIAL_SCORE_def)

lemma createRoom_ok: "room_ok (fst (createRoom now g))"
  using seedFood_length [of 100 "[]" g]
  by (simp add: createRoom_def room_ok_def split_def Let_def)

lemma lookup_room_ok:
  "server_ok s \<Longrightarrow> map_of (rooms s) rid = Some r \<Longrightarrow> room_ok r"
  by (auto simp: server_ok_def list_all_iff dest: map_of_SomeD)

lemma lookup_player_ok:
  "room_ok r \<Longrightarrow> map_of (r_players r) sid = Some p \<Longrightarrow> player_ok p"
  by (auto simp: room_ok_def list_all_iff dest: map_of_SomeD)

lemma room_update_ok:
  "room_ok r \<Longrightarrow> player_ok p \<Longrightarrow> room_ok (r\<lparr>r_players := AList.update sid p (r_players r)\<rparr>)"
  by (simp add: room_ok_def list_all_update distinct_update)

lemma joinRoom_ok:
  assumes "joinRoom sid rid playerName now s = Some (s', out)" and "server_ok s"
  shows "server_ok s'"
proof -
  let ?rg = "case map_of (rooms s) rid of None \<Rightarrow> createRoom now (randomSource s)
                           | Some r \<Rightarrow> (r, randomSource s)"
  have rok: "room_ok (fst ?rg)"
    using assms(2) by (auto simp: createRoom_ok lookup_room_ok split: option.splits)
  let ?p = "initBody INITIAL_LENGTH (fst (newPlayer sid playerName (snd ?rg)))"
  let ?room1 = "(fst ?rg)\<lparr>r_players := AList.update sid ?p (r_players (fst ?rg))\<rparr>"
  have "room_ok ?room1" using rok newPlayer_ok by (rule room_update_ok)
  moreover have "rooms s' = AList.update rid ?room1 (rooms s)"
    using assms(1) by (auto simp: joinRoom_def split_def Let_def split: if_splits)
  ultimately show ?thesis using assms(2) by (simp add: server_ok_def list_all_update)
qed

lemma guardedPlayer_D:
  "guardedPlayer sid s = Some (rid, r, p) \<Longrightarrow>
     map_of (rooms s) rid = Some r \<and> map_of (r_players r) sid = Some p"
  by (auto simp: guardedPlayer_def split: option.splits if_splits)

lemma storePlayer_ok:
  assumes "server_ok s" "map_of (rooms s) rid = Some r" "player_ok p"
  shows "server_ok (storePlayer rid sid r p s)"
proof -
  have "room_ok r" using assms(1,2) by (rule lookup_room_ok)
  then have "room_ok (r\<lparr>r_players := AList.update sid p (r_players r)\<rparr>)"
    using assms(3) by (rule room_update_ok)
  then show ?thesis using assms(1) by (simp add: storePlayer_def server_ok_def list_all_update)
qed

lemma onInput_ok: "server_ok s \<Longrightarrow> server_ok (onInput sid angle s)"
proof (cases "guardedPlayer sid s")
  case None
  assume "server_ok s" then show ?thesis using None by (simp add: onInput_def)
next
  case (Some t)
  assume ok: "server_ok s"
  obtain rid r p where t: "t = (rid, r, p)" by (cases t)
  from guardedPlayer_D [OF Some [unfolded t]] have l: "map_of (rooms s) rid = Some r"
    "map_of (r_players r) sid = Some p" by simp_all
  have "player_ok p" using lookup_room_ok [OF ok l(1)] l(2) by (rule lookup_player_ok)
  then have "player_ok (p\<lparr>p_angle := angle\<rparr>)" by (simp add: player_ok_def)
  then show ?thesis using Some t storePlayer_ok [OF ok l(1)] by (simp add: onInput_def)
qed

lemma onBoost_ok: "server_ok s \<Longrightarrow> server_ok (onBoost sid b s)"
proof (cases "guardedPlayer sid s")
  case None
  assume "server_ok s" then show ?thesis using None by (simp add: onBoost_def)
next
  case (Some t)
  assume ok: "server_ok s"
  obtain rid r p where t: "t = (rid, r, p)" by (cases t)
  from guardedPlayer_D [OF Some [unfolded t]] have l: "map_of (rooms s) rid = Some r"
    "map_of (r_players r) sid = Some p" by simp_all
  have "player_ok p" using lookup_room_ok [OF ok l(1)] l(2) by (rule lookup_player_ok)
  then have "player_ok (p\<lparr>p_isBoosting := b\<rparr>)" by (simp add: player_ok_def)
  then show ?thesis using Some t storePlayer_ok [OF ok l(1)] by (simp add: onBoost_def)
qed

lemma room_delete_ok:
  "room_ok r \<Longrightarrow> room_ok (r\<lparr>r_players := AList.delete sid (r_players r)\<rparr>)"
  by (simp add: room_ok_def list_all_delete distinct_delete)

lemma onDisconnect_rooms:
  "rooms (onDisconnect sid s) = rooms s
   \<or> (\<exists>rid. rooms (onDisconnect sid s) = AList.delete rid (rooms s))
   \<or> (\<exists>rid r. map_of (rooms s) rid = Some r \<and>
         rooms (onDisconnect sid s) = AList.update rid (r\<lparr>r_players := AList.delete sid (r_players r)\<rparr>) (rooms s))"
  by (auto simp: onDisconnect_def Let_def split: option.splits)

lemma onDisconnect_ok:
  assumes "server_ok s" shows "server_ok (onDisconnect sid s)"
proof -
  consider "rooms (onDisconnect sid s) = rooms s"
    | rid where "rooms (onDisconnect sid s) = AList.delete rid (rooms s)"
    | rid r where "map_of (rooms s) rid = Some r"
        "rooms (onDisconnect sid s) = AList.update rid (r\<lparr>r_players := AList.delete sid (r_players r)\<rparr>) (rooms s)"
    using onDisconnect_rooms [of sid s] by blast
  then show ?thesis
  proof cases
    case 1
    then show ?thesis using assms by (simp add: server_ok_def)
  next
    case 2
    then show ?thesis using assms by (simp add: server_ok_def list_all_delete)
  next
    case 3
    have "room_ok r" using assms 3(1) by (rule lookup_room_ok)
    then have "room_ok (r\<lparr>r_players := AList.delete sid (r_players r)\<rparr>)" by (rule room_delete_ok)
    then show ?thesis using assms 3(2) by (simp add: server_ok_def list_all_update)
  qed
qed

lemma tick_ok:
  assumes "tick s = Some (s', out)" and "server_ok s"
  shows "server_ok s'"
proof -
  from assms(1) obtain rs g where ts: "tickRooms (rooms s) (randomSource s) = Some (rs, out, g)"
    and s': "s' = s\<lparr>rooms := rs, randomSource := g\<rparr>"
    by (auto simp: tick_def split: option.splits)
  have "list_all (\<lambda>(k, r). room_ok r) rs"
    using roomStepped_ok [OF tickRooms_props [OF ts]] assms(2) by (simp add: server_ok_def)
  then show ?thesis by (simp add: s' server_ok_def)
qed

lemma exec_ok:
  assumes "exec s e = Some (s', out)" and "server_ok s"
  shows "server_ok s'"
proof (cases e)
  case (Connect sid)
  then show ?thesis using assms by (auto simp: server_ok_def split: if_splits)
next
  case (JoinRoom sid rid playerName now)
  then show ?thesis using assms joinRoom_ok by (auto split: if_splits)
next
  case (Input sid angle)
  then show ?thesis using assms onInput_ok by (auto split: if_splits)
next
  case (Boost sid b)
  then show ?thesis using assms onBoost_ok by (auto split: if_splits)
next
  case (Disconnect sid)
  then show ?thesis using assms onDisconnect_ok by (auto split: if_splits)
next
  case Tick
  then show ?thesis using assms tick_ok by auto
qed

lemma reachable_ok: "reachable s \<Longrightarrow> server_ok s"
proof (induction rule: reachable.induct)
  case (reachable_init g)
  show ?case by (simp add: server_ok_def init_def)
next
  case (reachable_exec s e s1 out)
  then show ?case using exec_ok by blast
qed

lemma run_reachable: "reachable s \<Longrightarrow> run s es = Some s' \<Longrightarrow> reachable s'"
proof (induction es arbitrary: s)
  case Nil
  then show ?case by simp
next
  case (Cons e es)
  from Cons.prems(2) obtain s1 out where e: "exec s e = Some (s1, out)" and r: "run s1 es = Some s'"
    by (auto split: option.splits)
  have "reachable s1" using Cons.prems(1) e by (rule reachable_exec)
  then show ?case using r by (rule Cons.IH)
qed

lemma random_zero: "random zeroRng = (0, zeroRng)"
  by (simp add: random_def zeroRng_def)

lemma generateFood_zero: "generateFood zeroRng = (cornerFood, zeroRng)"
  by (simp add: generateFood_def random_zero cornerFood_def MAP_SIZE_def)

lemma seedFood_zero: "seedFood n fs zeroRng = (fs @ replicate n cornerFood, zeroRng)"
  by (induction n arbitrary: fs) (simp_all add: generateFood_zero replicate_append_same)

lemma createRoom_zero:
  "createRoom now zeroRng =
     (\<lparr>r_players = [], r_food = replicate 100 cornerFood, r_lastUpdate = now, r_tickCount = 0\<rparr>, zeroRng)"
  by (simp add: createRoom_def seedFood_zero)

lemma newPlayer_zero:
  "initBody INITIAL_LENGTH (fst (newPlayer sid playerName zeroRng)) = spawnPlayer sid playerName"
  "snd (newPlayer sid playerName zeroRng) = zeroRng"
  by (simp_all add: newPlayer_def random_zero initBody_eq spawnPlayer_def INITIAL_LENGTH_def
      INITIAL_SCORE_def numeral_eq_Suc)

lemma solo_run:
  "run (init zeroRng) [Connect ''a'', JoinRoom ''a'' ''1'' ''ann'' 0] = Some soloServer"
  by (simp add: init_def joinRoom_def protoKeys_def createRoom_zero newPlayer_zero split_def
      soloServer_def soloRoom_def)

lemma solo_reachable: "reachable soloServer"
  using run_reachable [OF reachable_init solo_run] .

text \<open>
  C10. In every reachable server state the score of every player in every room is at
  least 10: a player starts with 100, the boost cost is taken only from a score above 10,
  one point at a time, and eating adds 10.
\<close>

theorem score_floor:
  assumes "reachable s" and "(rid, r) \<in> set (rooms s)" and "(pid, p) \<in> set (r_players r)"
  shows "10 \<le> p_score p"
proof -
  have "room_ok r" using reachable_ok [OF assms(1)] assms(2)
    by (auto simp: server_ok_def list_all_iff)
  then have "player_ok p" using assms(3) by (auto simp: room_ok_def list_all_iff)
  then show ?thesis by (simp add: player_ok_def)
qed

theorem score_floor_witness:
  "reachable soloServer \<and> (''1'', soloRoom) \<in> set (rooms soloServer)
   \<and> (''a'', spawnPlayer ''a'' ''ann'') \<in> set (r_players soloRoom)
   \<and> 10 \<le> p_score (spawnPlayer ''a'' ''ann'')"
proof -
  have m1: "(''1'', soloRoom) \<in> set (rooms soloServer)" by (simp add: soloServer_def)
  have m2: "(''a'', spawnPlayer ''a'' ''ann'') \<in> set (r_players soloRoom)" by (simp add: soloRoom_def)
  show ?thesis using solo_reachable m1 m2 score_floor [OF solo_reachable m1 m2] by simp
qed





lemma near_cornerFood: "jless (Num (- 901)) (p_x p) \<Longrightarrow> \<not> near p cornerFood"
proof (cases "p_y p")
  case NaN
  then show ?thesis by (cases "p_x p") (simp_all add: near_def cornerFood_def)
next
  case (Num y)
  assume "jless (Num (- 901)) (p_x p)"
  then obtain x where x: "p_x p = Num x" and a: "- 901 < x" by (cases "p_x p") simp_all
  have "0 \<le> (y + 1000) * (y + 1000)" by simp
  moreover have "99 * 99 \<le> (x + 1000) * (x + 1000)"
    using a by (intro mult_mono) simp_all
  moreover have "near p cornerFood = ((x + 1000) * (x + 1000) + (y + 1000) * (y + 1000) < 400)"
    by (simp add: near_def cornerFood_def sqrt_less x Num)
  ultimately show ?thesis by linarith
qed

lemma quiet_step:
  assumes "\<not> p_isBoosting p" and "p_angle p = Num 0"
     and "jless (Num (- 901)) (p_x p)" and "jless (p_x p) (Num 995)"
     and "jless (Num (- 1000)) (p_y p)" and "jless (p_y p) (Num 1000)"
  shows "playerTick tc p (replicate n cornerFood) zeroRng =
     Some (p\<lparr>p_x := jadd (p_x p) (Num 5),
             p_body := take (p_length p) (\<lparr>seg_x = jadd (p_x p) (Num 5), seg_y = p_y p\<rparr> # p_body p)\<rparr>,
           replicate n cornerFood, zeroRng)"
proof -
  from assms(3,4) obtain x where x: "p_x p = Num x" "- 901 < x" "x < 995"
    by (cases "p_x p") simp_all
  from assms(5,6) obtain y where y: "p_y p = Num y" "- 1000 < y" "y < 1000"
    by (cases "p_y p") simp_all
  let ?q = "updateBody (boundaryChecks (moveHead SPEED (p\<lparr>p_isBoosting := False\<rparr>)))"
  have q: "?q = p\<lparr>p_x := jadd (p_x p) (Num 5),
             p_body := take (p_length p) (\<lparr>seg_x = jadd (p_x p) (Num 5), seg_y = p_y p\<rparr> # p_body p)\<rparr>"
    using assms(1,2) x y
    by (simp add: updateBody_def boundaryChecks_def moveHead_def popWhile_take SPEED_def
        MAP_SIZE_def Let_def)
  have "\<not> near ?q cornerFood" using x by (intro near_cornerFood) (simp add: q)
  then have "filter (near ?q) (replicate n cornerFood) = []"
     and "filter (\<lambda>f. \<not> near ?q f) (replicate n cornerFood) = replicate n cornerFood"
    by simp_all
  then show ?thesis
    using assms(1) by (simp add: playerTick_eq handleBoost_def currentSpeed_def Let_def grow_def q)
qed



lemma roomStepped_lookup:
  "list_all2 roomStepped rs rs' \<Longrightarrow> map_of rs k = Some r \<Longrightarrow> map_of rs' k = Some r'
     \<Longrightarrow> roomStepped (k, r) (k, r')"
proof (induction rule: list_all2_induct)
  case Nil
  then show ?case by simp
next
  case (Cons a as b bs)
  have key: "fst b = fst a" using Cons.hyps(1) by (simp add: roomStepped_def)
  show ?case
  proof (cases "fst a = k")
    case True
    then have "a = (k, r)" "b = (k, r')" using Cons.prems key by (cases a; cases b; simp)+
    then show ?thesis using Cons.hyps(1) by simp
  next
    case False
    then have "map_of as k = Some r" "map_of bs k = Some r'"
      using Cons.prems key by (cases a; cases b; simp)+
    then show ?thesis by (rule Cons.IH)
  qed
qed

lemma joinRoom_food:
  assumes "joinRoom sid rid0 playerName now s = Some (s', out)"
    and "map_of (rooms s) rid = Some r" and "map_of (rooms s') rid = Some r'"
  shows "r_food r' = r_food r"
proof -
  let ?rg = "case map_of (rooms s) rid0 of None \<Rightarrow> createRoom now (randomSource s)
                           | Some r \<Rightarrow> (r, randomSource s)"
  let ?p = "initBody INITIAL_LENGTH (fst (newPlayer sid playerName (snd ?rg)))"
  let ?room1 = "(fst ?rg)\<lparr>r_players := AList.update sid ?p (r_players (fst ?rg))\<rparr>"
  have rs: "rooms s' = AList.update rid0 ?room1 (rooms s)"
    using assms(1) by (auto simp: joinRoom_def split_def Let_def split: if_splits)
  show ?thesis
  proof (cases "rid = rid0")
    case True
    then have "r' = ?room1" using assms(3) by (simp add: rs AList.update_conv')
    then show ?thesis using assms(2) True by simp
  next
    case False
    then show ?thesis using assms(2,3) by (simp add: rs AList.update_conv')
  qed
qed

lemma storePlayer_food:
  assumes "map_of (rooms s) rid0 = Some r0"
    and "map_of (rooms s) rid = Some r" and "map_of (rooms (storePlayer rid0 sid r0 p s)) rid = Some r'"
  shows "r_food r' = r_food r"
  using assms by (cases "rid = rid0") (auto simp: storePlayer_def AList.update_conv')

lemma onInput_food:
  assumes "map_of (rooms s) rid = Some r" and "map_of (rooms (onInput sid angle s)) rid = Some r'"
  shows "r_food r' = r_food r"
proof (cases "guardedPlayer sid s")
  case None
  then show ?thesis using assms by (simp add: onInput_def)
next
  case (Some t)
  obtain rid0 r0 p where t: "t = (rid0, r0, p)" by (cases t)
  from guardedPlayer_D [OF Some [unfolded t]] have "map_of (rooms s) rid0 = Some r0" by simp
  then show ?thesis using assms Some t storePlayer_food by (simp add: onInput_def)
qed

lemma onBoost_food:
  assumes "map_of (rooms s) rid = Some r" and "map_of (rooms (onBoost sid b s)) rid = Some r'"
  shows "r_food r' = r_food r"
proof (cases "guardedPlayer sid s")
  case None
  then show ?thesis using assms by (simp add: onBoost_def)
next
  case (Some t)
  obtain rid0 r0 p where t: "t = (rid0, r0, p)" by (cases t)
  from guardedPlayer_D [OF Some [unfolded t]] have "map_of (rooms s) rid0 = Some r0" by simp
  then show ?thesis using assms Some t storePlayer_food by (simp add: onBoost_def)
qed

lemma onDisconnect_food:
  assumes "map_of (rooms s) rid = Some r" and "map_of (rooms (onDisconnect sid s)) rid = Some r'"
  shows "r_food r' = r_food r"
proof -
  consider "rooms (onDisconnect sid s) = rooms s"
    | rid0 where "rooms (onDisconnect sid s) = AList.delete rid0 (rooms s)"
    | rid0 r0 where "map_of (rooms s) rid0 = Some r0"
        "rooms (onDisconnect sid s) = AList.update rid0 (r0\<lparr>r_players := AList.delete sid (r_players r0)\<rparr>) (rooms s)"
    using onDisconnect_rooms [of sid s] by blast
  then show ?thesis
  proof cases
    case 1
    then show ?thesis using assms by simp
  next
    case 2
    then show ?thesis using assms by (cases "rid = rid0") (simp_all add: AList.delete_conv')
  next
    case 3
    then show ?thesis using assms by (cases "rid = rid0") (auto simp: AList.update_conv')
  qed
qed

lemma tick_food:
  assumes "tick s = Some (s', out)" and "server_ok s"
    and "map_of (rooms s) rid = Some r" and "map_of (rooms s') rid = Some r'"
  shows "length (r_food r) \<le> length (r_food r')"
proof -
  from assms(1) obtain rs g where ts: "tickRooms (rooms s) (randomSource s) = Some (rs, out, g)"
    and s': "s' = s\<lparr>rooms := rs, randomSource := g\<rparr>"
    by (auto simp: tick_def split: option.splits)
  have "roomStepped (rid, r) (rid, r')"
    using roomStepped_lookup [OF tickRooms_props [OF ts] assms(3)] assms(4) by (simp add: s')
  then obtain ga out1 gb where "tickRoom rid r ga = Some (r', out1, gb)"
    by (auto simp: roomStepped_def)
  moreover have "room_ok r" using assms(2,3) by (rule lookup_room_ok)
  ultimately show ?thesis using tickRoom_ok by blast
qed

lemma exec_food:
  assumes "exec s e = Some (s', out)" and "server_ok s"
    and "map_of (rooms s) rid = Some r" and "map_of (rooms s') rid = Some r'"
  shows "length (r_food r) \<le> length (r_food r')"
proof (cases e)
  case (Connect sid)
  then show ?thesis using assms by (auto split: if_splits)
next
  case (JoinRoom sid rid0 playerName now)
  then show ?thesis using assms joinRoom_food [of sid rid0 playerName now s s' out rid r r']
    by (auto split: if_splits)
next
  case (Input sid angle)
  then show ?thesis using assms onInput_food [of s rid r sid angle r'] by (auto split: if_splits)
next
  case (Boost sid b)
  then show ?thesis using assms onBoost_food [of s rid r sid b r'] by (auto split: if_splits)
next
  case (Disconnect sid)
  then show ?thesis using assms onDisconnect_food [of s rid r sid r'] by (auto split: if_splits)
next
  case Tick
  then show ?thesis using assms tick_food by auto
qed

lemma foodLoop_length:
  assumes "foodLoop (length fs) p fs g = Some (p', fs', g')"
  shows "length fs' = length fs"
proof -
  let ?k = "length (filter (near p) fs)"
  from assms have "seedFood ?k (filter (\<lambda>f. \<not> near p f) fs) g = (fs', g')"
    by (simp add: foodLoop_eq)
  then have "fs' = fst (seedFood ?k (filter (\<lambda>f. \<not> near p f) fs) g)" by simp
  then have "length fs' = length (filter (\<lambda>f. \<not> near p f) fs) + length (filter (near p) fs)"
    by (simp add: seedFood_length)
  then show ?thesis using sum_length_filter_compl [of "near p" fs] by simp
qed

text \<open>
  C6. In every reachable server state every room holds at least the 100 seeded Food; no
  event lowers the food count of a room that is in the registry before and after it; and
  the food scan of a player leaves the count as it was, one new Food for each one eaten.
\<close>

theorem food_count_never_decreases:
  assumes "reachable s"
  shows "(\<forall>rid r. map_of (rooms s) rid = Some r \<longrightarrow> 100 \<le> length (r_food r))
       \<and> (\<forall>e s' out rid r r'. exec s e = Some (s', out) \<and> map_of (rooms s) rid = Some r
              \<and> map_of (rooms s') rid = Some r' \<longrightarrow> length (r_food r) \<le> length (r_food r'))
       \<and> (\<forall>p fs g p' fs' g'. foodLoop (length fs) p fs g = Some (p', fs', g') \<longrightarrow> length fs' = length fs)"
proof -
  have ok: "server_ok s" using assms by (rule reachable_ok)
  have a: "100 \<le> length (r_food r)" if "map_of (rooms s) rid = Some r" for rid r
    using lookup_room_ok [OF ok that] by (simp add: room_ok_def)
  have b: "length (r_food r) \<le> length (r_food r')"
    if "exec s e = Some (s', out)" "map_of (rooms s) rid = Some r" "map_of (rooms s') rid = Some r'"
    for e s' out rid r r'
    using exec_food [OF that(1) ok that(2,3)] .
  show ?thesis using a b foodLoop_length by blast
qed

lemma spawn_step:
  "playerTick tc (spawnPlayer sid playerName) (replicate n cornerFood) zeroRng
     = Some (movedPlayer sid playerName, replicate n cornerFood, zeroRng)"
  by (simp add: quiet_step spawnPlayer_def movedPlayer_def)

lemma hitsBody_self_far:
  "\<not> checkOthers ''a'' (movedPlayer ''a'' ''ann'') [(''a'', movedPlayer ''a'' ''ann'')]"
  by simp

lemma solo_tick:
  "exec soloServer Tick =
     Some (tickedServer, [(ToChannel ''1'', GameState (r_players tickedRoom) (r_food tickedRoom))])"
  by (simp add: tick_def soloServer_def soloRoom_def tickRoom_def spawn_step deadPlayers_def
      tickedServer_def tickedRoom_def)

lemma scan_nearFood:
  "foodLoop (length [nearFood]) (spawnPlayer ''a'' ''ann'') [nearFood] zeroRng
     = Some (grow 1 (spawnPlayer ''a'' ''ann''), [cornerFood], zeroRng)"
proof -
  have "near (spawnPlayer ''a'' ''ann'') nearFood"
    by (simp add: near_def sqrt_less nearFood_def spawnPlayer_def)
  then show ?thesis
    using foodLoop_eq [of "[nearFood]" "spawnPlayer ''a'' ''ann''" zeroRng]
    by (simp add: generateFood_zero del: foodLoop.simps)
qed

theorem food_count_never_decreases_witness:
  "reachable soloServer \<and> map_of (rooms soloServer) ''1'' = Some soloRoom
   \<and> 100 \<le> length (r_food soloRoom)
   \<and> exec soloServer Tick =
        Some (tickedServer, [(ToChannel ''1'', GameState (r_players tickedRoom) (r_food tickedRoom))])
   \<and> map_of (rooms tickedServer) ''1'' = Some tickedRoom
   \<and> length (r_food soloRoom) \<le> length (r_food tickedRoom)
   \<and> foodLoop (length [nearFood]) (spawnPlayer ''a'' ''ann'') [nearFood] zeroRng
        = Some (grow 1 (spawnPlayer ''a'' ''ann''), [cornerFood], zeroRng)
   \<and> length [cornerFood] = length [nearFood]"
proof -
  have m1: "map_of (rooms soloServer) ''1'' = Some soloRoom" by (simp add: soloServer_def)
  have m2: "map_of (rooms tickedServer) ''1'' = Some tickedRoom" by (simp add: tickedServer_def)
  note th = food_count_never_decreases [OF solo_reachable]
  have "100 \<le> length (r_food soloRoom)" using th m1 by blast
  moreover have "length (r_food soloRoom) \<le> length (r_food tickedRoom)"
    using th solo_tick m1 m2 by blast
  moreover have "length [cornerFood] = length [nearFood]"
    using th scan_nearFood by blast
  ultimately show ?thesis using solo_reachable m1 m2 solo_tick scan_nearFood by blast
qed

text \<open>
  What one tick of a room does about deaths, with \<open>ps\<close> the players after the movement
  pass: the messages are one \<open>dead\<close> to the channel named by each player marked dead,
  each once, and then the one broadcast; the broadcast carries the player object without
  the dead players; and the Food added for a dead player is its even-indexed body
  segments in its own colour.
\<close>

lemma death_resolution:
  assumes "tickRoom rid r g = Some (r', out, g')"
    and "distinct (map fst (r_players r))"
    and "movePlayers (r_tickCount r + 1) (r_players r) (r_food r) g = Some (ps, fs, g1)"
  shows "out = map (\<lambda>pid. (ToChannel pid, Dead)) (deadPlayers ps)
               @ [(ToChannel rid, GameState (r_players r') (r_food r'))]
       \<and> distinct (deadPlayers ps)
       \<and> r_players r' = filter (\<lambda>(k, p). k \<notin> set (deadPlayers ps)) ps
       \<and> r_food r' = fs @ concat (map (deathFood ps) (deadPlayers ps))
       \<and> (\<forall>pid p. map_of ps pid = Some p \<longrightarrow>
             deathFood ps pid =
               map (\<lambda>j. segmentFood (p_color p) (p_body p ! j)) (filter even [0..<length (p_body p)]))"
proof -
  have keys: "map fst ps = map fst (r_players r)"
    using movePlayers_props [OF assms(3)] by simp
  have d: "distinct (deadPlayers ps)"
    using assms(2) keys by (simp add: deadPlayers_distinct)
  have df: "deathFood ps pid =
      map (\<lambda>j. segmentFood (p_color p) (p_body p ! j)) (filter even [0..<length (p_body p)])"
    if "map_of ps pid = Some p" for pid p
    using that by (simp add: deathFood_def bodyToFood_even)
  from assms(1) tickRoom_eq [OF assms(2,3), of rid]
  have "r' = r\<lparr>r_tickCount := r_tickCount r + 1,
             r_players := filter (\<lambda>(k, p). k \<notin> set (deadPlayers ps)) ps,
             r_food := fs @ concat (map (deathFood ps) (deadPlayers ps))\<rparr>"
    and "out = map (\<lambda>pid. (ToChannel pid, Dead)) (deadPlayers ps)
             @ [(ToChannel rid, GameState (filter (\<lambda>(k, p). k \<notin> set (deadPlayers ps)) ps)
                                          (fs @ concat (map (deathFood ps) (deadPlayers ps))))]"
    by simp_all
  then show ?thesis using d df by simp
qed

lemma duo_move:
  "movePlayers (r_tickCount duoRoom + 1) (r_players duoRoom) (r_food duoRoom) zeroRng
     = Some (duoMoved, replicate 100 cornerFood, zeroRng)"
  by (simp add: duoRoom_def duoMoved_def spawn_step)

lemma duo_dead: "deadPlayers duoMoved = [''a'', ''b'']"
  by (simp add: deadPlayers_def duoMoved_def movedPlayer_def sqrt_less)

lemma moved_remains: "bodyToFood 0 (p_color (movedPlayer sid n)) (p_body (movedPlayer sid n)) = duoRemains"
proof -
  have "filter even [0..<length (p_body (movedPlayer sid n))] = [0, 2, 4]"
    by (simp add: movedPlayer_def upt_rec)
  then show ?thesis
    by (simp add: bodyToFood_even segmentFood_def duoRemains_def) (simp add: movedPlayer_def)
qed

lemma duo_tick:
  "tickRoom ''1'' duoRoom zeroRng =
     Some (duoRoomAfter,
           [(ToChannel ''a'', Dead), (ToChannel ''b'', Dead),
            (ToChannel ''1'', GameState [] (replicate 100 cornerFood @ duoRemains @ duoRemains))],
           zeroRng)"
proof -
  have d: "distinct (map fst (r_players duoRoom))" by (simp add: duoRoom_def)
  have f: "deathFood duoMoved ''a'' = duoRemains" "deathFood duoMoved ''b'' = duoRemains"
    using moved_remains by (simp_all add: deathFood_def duoMoved_def)
  have "tickRoom ''1'' duoRoom zeroRng =
     Some (duoRoom\<lparr>r_tickCount := r_tickCount duoRoom + 1,
             r_players := filter (\<lambda>(k, p). k \<notin> set [''a'', ''b'']) duoMoved,
             r_food := replicate 100 cornerFood @ concat (map (deathFood duoMoved) [''a'', ''b''])\<rparr>,
           map (\<lambda>pid. (ToChannel pid, Dead)) [''a'', ''b'']
             @ [(ToChannel ''1'', GameState (filter (\<lambda>(k, p). k \<notin> set [''a'', ''b'']) duoMoved)
                   (replicate 100 cornerFood @ concat (map (deathFood duoMoved) [''a'', ''b''])))],
           zeroRng)"
    using tickRoom_eq [OF d duo_move, of "''1''"] unfolding duo_dead .
  then show ?thesis
    by (simp add: f) (simp add: duoRoomAfter_def duoRoom_def duoMoved_def)
qed

lemma run_append:
  "run s (es @ es') = (case run s es of None \<Rightarrow> None | Some s1 \<Rightarrow> run s1 es')"
  by (induction es arbitrary: s) (auto split: option.splits)

lemma duo_run: "run (init zeroRng) duoEvents = Some duoServer"
  by (simp add: duoEvents_def init_def joinRoom_def protoKeys_def createRoom_zero newPlayer_zero
      split_def duoServer_def duoRoom_def)

lemma duo_exec_tick:
  "tick duoServer =
     Some (duoServer\<lparr>rooms := [(''1'', duoRoomAfter)]\<rparr>,
           [(ToChannel ''a'', Dead), (ToChannel ''b'', Dead),
            (ToChannel ''1'', GameState [] (replicate 100 cornerFood @ duoRemains @ duoRemains))])"
  by (simp add: tick_def duoServer_def duo_tick)

lemma summary_after_deaths:
  "map_option registrySummary (run (init zeroRng) (duoEvents @ [Tick])) = Some [(''1'', [], 106, 1)]"
proof -
  have "run (init zeroRng) (duoEvents @ [Tick]) = Some (duoServer\<lparr>rooms := [(''1'', duoRoomAfter)]\<rparr>)"
    by (simp add: run_append duo_run duo_exec_tick)
  then show ?thesis by (simp add: registrySummary_def duoRoomAfter_def duoRemains_def)
qed

lemma rejoin_after_deaths:
  "map_option registrySummary (run (init zeroRng) trioEvents) = Some [(''1'', [''c''], 106, 1)]"
proof -
  have "run (init zeroRng) duoEvents = Some duoServer" by (rule duo_run)
  then have "run (init zeroRng) trioEvents
      = run (duoServer\<lparr>rooms := [(''1'', duoRoomAfter)]\<rparr>) [Connect ''c'', JoinRoom ''c'' ''1'' ''cy'' 7]"
    by (simp add: trioEvents_def run_append duo_exec_tick)
  then show ?thesis
    by (simp add: duoServer_def joinRoom_def protoKeys_def split_def Let_def registrySummary_def
        duoRoomAfter_def duoRemains_def)
qed

lemma disconnect_removes_room:
  "map_option registrySummary
     (run (init zeroRng) [Connect ''a'', JoinRoom ''a'' ''1'' ''ann'' 0, Disconnect ''a'']) = Some []"
proof -
  have "run (init zeroRng) ([Connect ''a'', JoinRoom ''a'' ''1'' ''ann'' 0] @ [Disconnect ''a''])
      = run soloServer [Disconnect ''a'']"
    by (simp only: run_append solo_run option.case)
  then show ?thesis
    by (simp add: soloServer_def soloRoom_def onDisconnect_def registrySummary_def)
qed

text \<open>
  C3. The registry after the last two players of a room kill each other in one tick
  still holds the room, with no player, and the next join with that identifier enters
  the old room (its 106 Food, its tick counter 1); the sibling path, the disconnection
  of the last player, removes the room.
\<close>

theorem room_survives_last_deaths:
  "map_option registrySummary (run (init zeroRng) (duoEvents @ [Tick])) = Some [(''1'', [], 106, 1)]
   \<and> map_option registrySummary (run (init zeroRng) trioEvents) = Some [(''1'', [''c''], 106, 1)]
   \<and> map_option registrySummary
        (run (init zeroRng) [Connect ''a'', JoinRoom ''a'' ''1'' ''ann'' 0, Disconnect ''a'']) = Some []"
  using summary_after_deaths rejoin_after_deaths disconnect_removes_room by simp

lemma list_all2_fwd: "list_all2 R xs ys \<Longrightarrow> x \<in> set xs \<Longrightarrow> \<exists>y\<in>set ys. R x y"
  by (induction rule: list_all2_induct) auto

lemma list_all2_bwd: "list_all2 R xs ys \<Longrightarrow> y \<in> set ys \<Longrightarrow> \<exists>x\<in>set xs. R x y"
  by (induction rule: list_all2_induct) auto

lemma stepped_kin:
  assumes "stepped tc (k, p) (k', p')"
  shows "k' = k \<and> p_x p' = p_x (moved p) \<and> p_y p' = p_y (moved p) \<and> p_body p' = p_body (moved p)"
proof -
  from assms obtain fa ga fb gb where "playerTick tc p fa ga = Some (p', fb, gb)" and "k' = k"
    by (auto simp: stepped_def)
  then show ?thesis using playerTick_kin by blast
qed

lemma hitsBody_hits:
  assumes "p_x a' = p_x (moved a)" "p_y a' = p_y (moved a)" "p_body b' = p_body (moved b)"
  shows "hitsBody a' (p_body b') = hits (moved a) (moved b)"
  using assms by (simp add: hitsBody_iff hits_def)

text \<open>
  C1, as the code has it. A player is sent \<open>dead\<close> in a tick exactly when its head, after
  its move of this tick, is within 10 of a body segment of another player as that body
  is after that player's move of this tick. The right-hand side reads the players of
  the room as a set and nothing else.
\<close>

theorem collision_uses_moved_bodies:
  assumes "tickRoom rid r g = Some (r', out, g')"
    and "distinct (map fst (r_players r))"
    and "(aid, a) \<in> set (r_players r)"
  shows "((ToChannel aid, Dead) \<in> set out) =
         (\<exists>(bid, b)\<in>set (r_players r). bid \<noteq> aid \<and>
            (\<exists>seg\<in>set (p_body (moved b)).
               jless (Math_hypot (jsub (p_x (moved a)) (seg_x seg))
                                 (jsub (p_y (moved a)) (seg_y seg))) (Num 10)))"
proof -
  let ?tc = "r_tickCount r + 1"
  obtain ps fs g1 where mv: "movePlayers ?tc (r_players r) (r_food r) g = Some (ps, fs, g1)"
    using movePlayers_total [of ?tc "r_players r" "r_food r" g] by (metis prod_cases3)
  from movePlayers_props [OF mv] have keys: "map fst ps = map fst (r_players r)"
    and st: "list_all2 (stepped ?tc) (r_players r) ps" by simp_all
  have dps: "distinct (map fst ps)" using assms(2) keys by simp
  have out: "out = map (\<lambda>pid. (ToChannel pid, Dead)) (deadPlayers ps)
             @ [(ToChannel rid, GameState (filter (\<lambda>(k, p). k \<notin> set (deadPlayers ps)) ps)
                                          (fs @ concat (map (deathFood ps) (deadPlayers ps))))]"
    using assms(1) tickRoom_eq [OF assms(2) mv, of rid] by simp
  have l: "((ToChannel aid, Dead) \<in> set out) = (aid \<in> set (deadPlayers ps))"
    by (auto simp: out)
  from list_all2_fwd [OF st assms(3)] obtain y where y: "y \<in> set ps" "stepped ?tc (aid, a) y" by blast
  obtain k' a' where y': "y = (k', a')" by (cases y)
  from stepped_kin [OF y(2) [unfolded y']] have ka: "k' = aid" "p_x a' = p_x (moved a)"
    "p_y a' = p_y (moved a)" by simp_all
  have ain: "(aid, a') \<in> set ps" using y(1) y' ka(1) by simp
  have m: "(aid \<in> set (deadPlayers ps)) = (\<exists>(oid, other)\<in>set ps. oid \<noteq> aid \<and> hitsBody a' (p_body other))"
    using deadPlayers_iff [OF dps ain] by (simp add: checkOthers_iff)
  have "(\<exists>(oid, other)\<in>set ps. oid \<noteq> aid \<and> hitsBody a' (p_body other))
      = (\<exists>(bid, b)\<in>set (r_players r). bid \<noteq> aid \<and> hits (moved a) (moved b))"
  proof
    assume "\<exists>(oid, other)\<in>set ps. oid \<noteq> aid \<and> hitsBody a' (p_body other)"
    then obtain oid other where o: "(oid, other) \<in> set ps" "oid \<noteq> aid" "hitsBody a' (p_body other)"
      by auto
    from list_all2_bwd [OF st o(1)] obtain x where x: "x \<in> set (r_players r)" "stepped ?tc x (oid, other)"
      by blast
    obtain bid b where x': "x = (bid, b)" by (cases x)
    from stepped_kin [OF x(2) [unfolded x']] have kb: "oid = bid" "p_body other = p_body (moved b)"
      by simp_all
    have "hits (moved a) (moved b)" using o(3) hitsBody_hits [OF ka(2,3) kb(2)] by simp
    then show "\<exists>(bid, b)\<in>set (r_players r). bid \<noteq> aid \<and> hits (moved a) (moved b)"
      using x(1) x' kb(1) o(2) by auto
  next
    assume "\<exists>(bid, b)\<in>set (r_players r). bid \<noteq> aid \<and> hits (moved a) (moved b)"
    then obtain bid b where b: "(bid, b) \<in> set (r_players r)" "bid \<noteq> aid" "hits (moved a) (moved b)"
      by auto
    from list_all2_fwd [OF st b(1)] obtain z where z: "z \<in> set ps" "stepped ?tc (bid, b) z" by blast
    obtain oid other where z': "z = (oid, other)" by (cases z)
    from stepped_kin [OF z(2) [unfolded z']] have kb: "oid = bid" "p_body other = p_body (moved b)"
      by simp_all
    have "hitsBody a' (p_body other)" using b(3) hitsBody_hits [OF ka(2,3) kb(2)] by simp
    then show "\<exists>(oid, other)\<in>set ps. oid \<noteq> aid \<and> hitsBody a' (p_body other)"
      using z(1) z' kb(1) b(2) by auto
  qed
  then show ?thesis using l m by (simp add: hits_def)
qed

lemma moved_chaserA:
  "moved chaserA = chaserA\<lparr>p_x := Num 24, p_y := Num 0,
     p_body := [\<lparr>seg_x = Num 24, seg_y = Num 0\<rparr>, \<lparr>seg_x = Num 24, seg_y = Num (- 5)\<rparr>, \<lparr>seg_x = Num 24, seg_y = Num (- 5)\<rparr>,
                \<lparr>seg_x = Num 24, seg_y = Num (- 5)\<rparr>, \<lparr>seg_x = Num 24, seg_y = Num (- 5)\<rparr>]\<rparr>"
  by (simp add: moved_def currentSpeed_def updateBody_def popWhile_take boundaryChecks_def
      moveHead_def SPEED_def MAP_SIZE_def chaserA_def)

lemma moved_leaderB:
  "moved leaderB = leaderB\<lparr>p_x := Num 55,
     p_body := [\<lparr>seg_x = Num 55, seg_y = Num 0\<rparr>, \<lparr>seg_x = Num 50, seg_y = Num 0\<rparr>, \<lparr>seg_x = Num 45, seg_y = Num 0\<rparr>,
                \<lparr>seg_x = Num 40, seg_y = Num 0\<rparr>, \<lparr>seg_x = Num 35, seg_y = Num 0\<rparr>]\<rparr>"
  by (simp add: moved_def currentSpeed_def updateBody_def popWhile_take boundaryChecks_def
      moveHead_def SPEED_def MAP_SIZE_def leaderB_def)

text \<open>a movement pass of a player that does not boost, with nothing to eat\<close>
lemma plain_step:
  assumes "\<not> p_isBoosting p" and "jless (Num (- 901)) (p_x (moved p))"
  shows "playerTick tc p (replicate n cornerFood) zeroRng = Some (moved p, replicate n cornerFood, zeroRng)"
proof -
  have p: "p\<lparr>p_isBoosting := False\<rparr> = p" using assms(1) by simp
  have far: "\<not> near (moved p) cornerFood" using assms(2) by (rule near_cornerFood)
  have hb: "handleBoost tc p (replicate n cornerFood) zeroRng = (SPEED, p, replicate n cornerFood, zeroRng)"
    using assms(1) by (simp add: handleBoost_def p)
  have sp: "currentSpeed p = SPEED" using assms(1) by (simp add: currentSpeed_def)
  show ?thesis using far
    by (simp add: playerTick_def hb foodLoop_eq grow_def moved_def sp)
qed

lemma chase_tick:
  "tickRoom ''1'' chaseRoom zeroRng =
     Some (chaseRoomAfter,
           [(ToChannel ''1'', GameState (r_players chaseRoomAfter) (r_food chaseRoomAfter))], zeroRng)"
proof -
  have a: "playerTick 5 chaserA (replicate 100 cornerFood) zeroRng
      = Some (moved chaserA, replicate 100 cornerFood, zeroRng)"
    by (rule plain_step) (simp_all add: moved_chaserA, simp_all add: chaserA_def)
  have b: "playerTick 5 leaderB (replicate 100 cornerFood) zeroRng
      = Some (moved leaderB, replicate 100 cornerFood, zeroRng)"
    by (rule plain_step) (simp_all add: moved_leaderB, simp_all add: leaderB_def)
  have mv: "movePlayers (r_tickCount chaseRoom + 1) (r_players chaseRoom) (r_food chaseRoom) zeroRng
     = Some ([(''a'', moved chaserA), (''b'', moved leaderB)], replicate 100 cornerFood, zeroRng)"
    by (simp add: chaseRoom_def a b)
  have d: "distinct (map fst (r_players chaseRoom))" by (simp add: chaseRoom_def)
  have dead: "deadPlayers [(''a'', moved chaserA), (''b'', moved leaderB)] = []"
    by (simp add: deadPlayers_def moved_chaserA moved_leaderB sqrt_less)
       (simp add: chaserA_def leaderB_def sqrt_less)
  show ?thesis
    using tickRoom_eq [OF d mv, of "''1''"] unfolding dead
    by (simp add: chaseRoomAfter_def chaseRoom_def)
qed

theorem collision_pre_tick_counterexample:
  "hitsBody chaserA (p_body leaderB) \<and> hitsBody (moved chaserA) (p_body leaderB)
   \<and> tickRoom ''1'' chaseRoom zeroRng =
       Some (chaseRoomAfter,
             [(ToChannel ''1'', GameState (r_players chaseRoomAfter) (r_food chaseRoomAfter))], zeroRng)
   \<and> (ToChannel ''a'', Dead) \<notin> set [(ToChannel ''1'', GameState (r_players chaseRoomAfter) (r_food chaseRoomAfter))]"
proof -
  have "hitsBody chaserA (p_body leaderB)"
    by (simp add: chaserA_def leaderB_def sqrt_less)
  moreover have "hitsBody (moved chaserA) (p_body leaderB)"
    by (simp add: moved_chaserA sqrt_less) (simp add: chaserA_def leaderB_def sqrt_less)
  ultimately show ?thesis using chase_tick by simp
qed

theorem collision_uses_moved_bodies_witness:
  "tickRoom ''1'' duoRoom zeroRng =
     Some (duoRoomAfter,
           [(ToChannel ''a'', Dead), (ToChannel ''b'', Dead),
            (ToChannel ''1'', GameState [] (replicate 100 cornerFood @ duoRemains @ duoRemains))],
           zeroRng)
   \<and> distinct (map fst (r_players duoRoom))
   \<and> (''a'', spawnPlayer ''a'' ''ann'') \<in> set (r_players duoRoom)
   \<and> (\<exists>(bid, b)\<in>set (r_players duoRoom). bid \<noteq> ''a'' \<and>
         (\<exists>seg\<in>set (p_body (moved b)).
            jless (Math_hypot (jsub (p_x (moved (spawnPlayer ''a'' ''ann''))) (seg_x seg))
                              (jsub (p_y (moved (spawnPlayer ''a'' ''ann''))) (seg_y seg))) (Num 10)))"
proof -
  have d: "distinct (map fst (r_players duoRoom))" by (simp add: duoRoom_def)
  have m: "(''a'', spawnPlayer ''a'' ''ann'') \<in> set (r_players duoRoom)" by (simp add: duoRoom_def)
  show ?thesis
    using collision_uses_moved_bodies [OF duo_tick d m] duo_tick d m by simp
qed








lemma near_moved:
  assumes "p_x q = p_x (moved p)" "p_y q = p_y (moved p)"
  shows "near q = near (moved p)"
  using assms by (simp add: fun_eq_iff near_def)

text \<open>
  C4, as the code has it. Players are served one after the other. In the pass of one
  player, with \<open>fs1\<close> the food array when its scan starts (after its boost handling) and
  \<open>k\<close> the number of Food of \<open>fs1\<close> within 20 of its head after the move: its target length
  grows by \<open>k\<close> and its score by \<open>10 * k\<close>; the array it leaves is the Food of \<open>fs1\<close> that
  are not within 20 of its head, in order, followed by \<open>k\<close> new Food; and that array, not
  \<open>fs1\<close>, is what the next player scans.
\<close>

theorem food_scan_in_pass:
  assumes "playerTick tc p fs g = Some (p', fs', g')"
    and "handleBoost tc p fs g = (speed, p1, fs1, g1)"
  shows "p_length p' = p_length p + length (filter (near (moved p)) fs1)
       \<and> p_score p' = p_score p1 + 10 * int (length (filter (near (moved p)) fs1))
       \<and> fs' = filter (\<lambda>f. \<not> near (moved p) f) fs1
                 @ fst (seedFood (length (filter (near (moved p)) fs1)) [] g1)
       \<and> movePlayers tc ((pid, p) # rest) fs g =
           (case movePlayers tc rest fs' g' of
              None \<Rightarrow> None
            | Some (rest1, fs2, g2) \<Rightarrow> Some ((pid, p') # rest1, fs2, g2))"
proof -
  have p1: "p1 = fst (snd (handleBoost tc p fs g))"
    and f1: "fs1 = fst (snd (snd (handleBoost tc p fs g)))"
    and g1: "g1 = snd (snd (snd (handleBoost tc p fs g)))"
    using assms(2) by simp_all
  let ?p2 = "updateBody (boundaryChecks (moveHead (currentSpeed p) p1))"
  have same: "p_x p1 = p_x p" "p_y p1 = p_y p" "p_angle p1 = p_angle p"
    "p_body p1 = p_body p" "p_length p1 = p_length p"
    by (simp_all add: p1 handleBoost_player)
  have "p_x ?p2 = p_x (moved p)" "p_y ?p2 = p_y (moved p)"
    using kin_cong [OF same] by (simp_all add: moved_def)
  then have n: "near ?p2 = near (moved p)" by (rule near_moved)
  let ?k = "length (filter (near (moved p)) fs1)"
  have "playerTick tc p fs g = Some (grow ?k ?p2, seedFood ?k (filter (\<lambda>f. \<not> near (moved p) f) fs1) g1)"
    by (simp add: playerTick_eq Let_def p1 [symmetric] f1 [symmetric] g1 [symmetric] n)
  with assms(1) have p': "p' = grow ?k ?p2"
    and sf: "seedFood ?k (filter (\<lambda>f. \<not> near (moved p) f) fs1) g1 = (fs', g')" by simp_all
  have "fs' = fst (seedFood ?k (filter (\<lambda>f. \<not> near (moved p) f) fs1) g1)" using sf by simp
  also have "\<dots> = filter (\<lambda>f. \<not> near (moved p) f) fs1 @ fst (seedFood ?k [] g1)"
    by (subst seedFood_append) simp
  finally have fs': "fs' = filter (\<lambda>f. \<not> near (moved p) f) fs1 @ fst (seedFood ?k [] g1)" .
  have "p_length p' = p_length p + ?k" "p_score p' = p_score p1 + 10 * int ?k"
    using same(5) by (simp_all add: p' grow_def moved_fields)
  then show ?thesis using fs' assms(1) by simp
qed

lemma moved_eaterA: "moved eaterA = fedA\<lparr>p_length := 5, p_score := 100\<rparr>"
  by (simp add: moved_def currentSpeed_def updateBody_def popWhile_take boundaryChecks_def
      moveHead_def SPEED_def MAP_SIZE_def eaterA_def fedA_def)

lemma moved_eaterB: "moved eaterB = unfedB"
  by (simp add: moved_def currentSpeed_def updateBody_def popWhile_take boundaryChecks_def
      moveHead_def SPEED_def MAP_SIZE_def eaterB_def unfedB_def)

lemma shared_near: "near (moved eaterA) sharedFood" "near (moved eaterB) sharedFood"
  by (simp_all add: near_def sqrt_less sharedFood_def moved_eaterA moved_eaterB fedA_def unfedB_def)

lemma corner_far: "\<not> near (moved eaterA) cornerFood"
  by (rule near_cornerFood) (simp add: moved_eaterA fedA_def)

lemma eaterA_boost:
  "handleBoost 6 eaterA (replicate 99 cornerFood @ [sharedFood]) zeroRng
     = (SPEED, eaterA, replicate 99 cornerFood @ [sharedFood], zeroRng)"
  by (simp add: handleBoost_def eaterA_def)

lemma eaterA_pass:
  "playerTick 6 eaterA (replicate 99 cornerFood @ [sharedFood]) zeroRng
     = Some (fedA, replicate 99 cornerFood @ [cornerFood], zeroRng)"
proof -
  have sp: "SPEED = currentSpeed eaterA" by (simp add: currentSpeed_def eaterA_def)
  have m: "updateBody (boundaryChecks (moveHead SPEED eaterA)) = moved eaterA"
    unfolding sp moved_def ..
  have g: "grow (Suc 0) (moved eaterA) = fedA"
    by (simp add: grow_def moved_eaterA fedA_def)
  show ?thesis
    using corner_far shared_near(1)
    by (simp add: playerTick_def eaterA_boost foodLoop_eq m g generateFood_zero)
qed

lemma eaterB_pass:
  "playerTick 6 eaterB (replicate 99 cornerFood @ [cornerFood]) zeroRng
     = Some (unfedB, replicate 99 cornerFood @ [cornerFood], zeroRng)"
proof -
  have "playerTick 6 eaterB (replicate (Suc 99) cornerFood) zeroRng
     = Some (moved eaterB, replicate (Suc 99) cornerFood, zeroRng)"
    by (rule plain_step) (simp_all add: moved_eaterB, simp_all add: eaterB_def unfedB_def)
  then show ?thesis by (simp only: replicate_Suc [symmetric] replicate_append_same moved_eaterB)
qed

lemma share_move:
  "movePlayers 6 [(''a'', eaterA), (''b'', eaterB)] (replicate 99 cornerFood @ [sharedFood]) zeroRng
     = Some ([(''a'', fedA), (''b'', unfedB)], replicate 99 cornerFood @ [cornerFood], zeroRng)"
  by (simp add: eaterA_pass eaterB_pass)

lemma share_tick:
  "tickRoom ''1'' shareRoom zeroRng =
     Some (shareRoomAfter,
           [(ToChannel ''1'', GameState (r_players shareRoomAfter) (r_food shareRoomAfter))], zeroRng)"
proof -
  have mv: "movePlayers (r_tickCount shareRoom + 1) (r_players shareRoom) (r_food shareRoom) zeroRng
     = Some ([(''a'', fedA), (''b'', unfedB)], replicate 99 cornerFood @ [cornerFood], zeroRng)"
    using share_move by (simp add: shareRoom_def)
  have d: "distinct (map fst (r_players shareRoom))" by (simp add: shareRoom_def)
  have dead: "deadPlayers [(''a'', fedA), (''b'', unfedB)] = []"
    by (simp add: deadPlayers_def fedA_def unfedB_def sqrt_less)
  show ?thesis
    using tickRoom_eq [OF d mv, of "''1''"] unfolding dead
    by (simp add: shareRoomAfter_def shareRoom_def)
qed

theorem shared_food_counterexample:
  "sharedFood \<in> set (r_food shareRoom)
   \<and> r_players shareRoom = [(''a'', eaterA), (''b'', eaterB)]
   \<and> tickRoom ''1'' shareRoom zeroRng =
        Some (shareRoomAfter,
              [(ToChannel ''1'', GameState (r_players shareRoomAfter) (r_food shareRoomAfter))], zeroRng)
   \<and> r_players shareRoomAfter = [(''a'', fedA), (''b'', unfedB)]
   \<and> jless (Math_hypot (jsub (p_x fedA) (food_x sharedFood)) (jsub (p_y fedA) (food_y sharedFood))) (Num 20)
   \<and> jless (Math_hypot (jsub (p_x unfedB) (food_x sharedFood)) (jsub (p_y unfedB) (food_y sharedFood))) (Num 20)
   \<and> p_length fedA = p_length eaterA + 1 \<and> p_score fedA = p_score eaterA + 10
   \<and> p_length unfedB = p_length eaterB \<and> p_score unfedB = p_score eaterB"
  using share_tick
  by (simp add: shareRoom_def shareRoomAfter_def sqrt_less sharedFood_def fedA_def unfedB_def
      eaterA_def eaterB_def)

theorem food_scan_in_pass_witness:
  "playerTick 6 eaterA (replicate 99 cornerFood @ [sharedFood]) zeroRng
     = Some (fedA, replicate 99 cornerFood @ [cornerFood], zeroRng)
   \<and> handleBoost 6 eaterA (replicate 99 cornerFood @ [sharedFood]) zeroRng
     = (SPEED, eaterA, replicate 99 cornerFood @ [sharedFood], zeroRng)
   \<and> filter (near (moved eaterA)) (replicate 99 cornerFood @ [sharedFood]) = [sharedFood]
   \<and> p_length fedA = p_length eaterA + length [sharedFood]
   \<and> p_score fedA = p_score eaterA + 10 * int (length [sharedFood])
   \<and> replicate 99 cornerFood @ [cornerFood] =
       filter (\<lambda>f. \<not> near (moved eaterA) f) (replicate 99 cornerFood @ [sharedFood])
         @ fst (seedFood (length [sharedFood]) [] zeroRng)
   \<and> movePlayers 6 [(''a'', eaterA), (''b'', eaterB)] (replicate 99 cornerFood @ [sharedFood]) zeroRng =
       (case movePlayers 6 [(''b'', eaterB)] (replicate 99 cornerFood @ [cornerFood]) zeroRng of
          None \<Rightarrow> None
        | Some (rest1, fs2, g2) \<Rightarrow> Some ((''a'', fedA) # rest1, fs2, g2))"
proof -
  have k: "filter (near (moved eaterA)) (replicate 99 cornerFood @ [sharedFood]) = [sharedFood]"
    using corner_far shared_near(1) by simp
  note th = food_scan_in_pass [OF eaterA_pass eaterA_boost, of "''a''" "[(''b'', eaterB)]", unfolded k]
  show ?thesis using th eaterA_pass eaterA_boost k by blast
qed

lemma interpolate_lookup:
  "distinct (map fst ts) \<Longrightarrow>
   map_of (interpolate ts ps) i =
     (case map_of ts i of
        None \<Rightarrow> map_of ps i
      | Some t \<Rightarrow> Some (case map_of ps i of None \<Rightarrow> t | Some p \<Rightarrow> lerp p t))"
proof (induction ts arbitrary: ps)
  case Nil
  show ?case by simp
next
  case (Cons a ts)
  obtain k t where a: "a = (k, t)" by (cases a)
  have d: "distinct (map fst ts)" and nk: "map_of ts k = None"
    using Cons.prems a by (simp_all add: map_of_eq_None_iff)
  show ?case
  proof (cases "map_of ps k")
    case None
    have "map_of (interpolate (a # ts) ps) i = map_of (interpolate ts (AList.update k t ps)) i"
      using a None by simp
    also have "\<dots> = (case map_of ts i of
        None \<Rightarrow> map_of (AList.update k t ps) i
      | Some t' \<Rightarrow> Some (case map_of (AList.update k t ps) i of None \<Rightarrow> t' | Some p \<Rightarrow> lerp p t'))"
      by (rule Cons.IH [OF d])
    finally show ?thesis using a None nk
      by (cases "i = k") (simp_all add: AList.update_conv' cong: option.case_cong)
  next
    case (Some p)
    have "map_of (interpolate (a # ts) ps) i = map_of (interpolate ts (AList.update k (lerp p t) ps)) i"
      using a Some by (simp add: lerp_def)
    also have "\<dots> = (case map_of ts i of
        None \<Rightarrow> map_of (AList.update k (lerp p t) ps) i
      | Some t' \<Rightarrow> Some (case map_of (AList.update k (lerp p t) ps) i of None \<Rightarrow> t' | Some p \<Rightarrow> lerp p t'))"
      by (rule Cons.IH [OF d])
    finally show ?thesis using a Some nk
      by (cases "i = k") (simp_all add: AList.update_conv' cong: option.case_cong)
  qed
qed

lemma map_of_filter_keys:
  "map_of (filter (\<lambda>(k, v). P k) ps) i = (if P i then map_of ps i else None)"
  by (induction ps) auto

lemma update_players:
  assumes "distinct (map fst (targetPlayers c))" and "map_of (targetPlayers c) i = Some t"
    and "map_of (players c) i = Some p"
  shows "map_of (players (update c)) i = Some (lerp p t)" and "targetPlayers (update c) = targetPlayers c"
proof -
  let ?ps1 = "interpolate (targetPlayers c) (players c)"
  let ?ps2 = "filter (\<lambda>(i, p). map_of (targetPlayers c) i \<noteq> None) ?ps1"
  have ps: "players (update c) = ?ps2"
    by (simp add: update_def Let_def split: option.splits)
  have "map_of ?ps2 i = map_of ?ps1 i" using assms(2) by (simp add: map_of_filter_keys)
  also have "\<dots> = Some (lerp p t)" using assms by (simp add: interpolate_lookup)
  finally show "map_of (players (update c)) i = Some (lerp p t)" by (simp add: ps)
  show "targetPlayers (update c) = targetPlayers c"
    by (simp add: update_def Let_def split: option.splits)
qed

lemma lerp_fixed: "s_x p = s_x t \<Longrightarrow> s_y p = s_y t \<Longrightarrow> s_x (lerp p t) = s_x t \<and> s_y (lerp p t) = s_y t"
  by (simp add: lerp_def)

lemma frames_fixed:
  assumes "distinct (map fst (targetPlayers c))" and "map_of (targetPlayers c) i = Some t"
    and "map_of (players c) i = Some p" and "s_x p = s_x t" and "s_y p = s_y t"
  shows "\<exists>q. map_of (players ((update ^^ n) c)) i = Some q \<and> s_x q = s_x t \<and> s_y q = s_y t
           \<and> targetPlayers ((update ^^ n) c) = targetPlayers c"
proof (induction n)
  case 0
  show ?case using assms(3,4,5) by auto
next
  case (Suc n)
  then obtain q where q: "map_of (players ((update ^^ n) c)) i = Some q" "s_x q = s_x t" "s_y q = s_y t"
    and tp: "targetPlayers ((update ^^ n) c) = targetPlayers c" by blast
  let ?c = "(update ^^ n) c"
  have d: "distinct (map fst (targetPlayers ?c))" and l: "map_of (targetPlayers ?c) i = Some t"
    using assms(1,2) tp by simp_all
  from update_players [OF d l q(1)] lerp_fixed [OF q(2,3)] tp
  show ?case by simp
qed

text \<open>
  C9. When a snapshot arrives that gives a player the position at which it is already
  rendered, the frames that follow leave the rendered position where it is: the
  authoritative position is a fixed point of the per-frame interpolation.
\<close>

theorem interpolation_fixed_point:
  assumes "distinct (map fst statePlayers)" and "map_of statePlayers i = Some t"
    and "map_of (players c) i = Some p" and "s_x p = s_x t" and "s_y p = s_y t"
  shows "\<exists>q. map_of (players ((update ^^ n) (onGameState statePlayers stateFood c))) i = Some q
             \<and> s_x q = s_x p \<and> s_y q = s_y p"
proof -
  let ?c = "onGameState statePlayers stateFood c"
  have ne: "players c \<noteq> []" using assms(3) by auto
  then have pl: "players ?c = players c" and tp: "targetPlayers ?c = statePlayers"
    by (simp_all add: onGameState_def Let_def)
  have "\<exists>q. map_of (players ((update ^^ n) ?c)) i = Some q \<and> s_x q = s_x t \<and> s_y q = s_y t
           \<and> targetPlayers ((update ^^ n) ?c) = targetPlayers ?c"
    by (rule frames_fixed [of ?c i t p n]) (simp_all add: pl tp assms)
  then show ?thesis using assms(4,5) by auto
qed

theorem interpolation_fixed_point_witness:
  "distinct (map fst [(''a'', shownPlayer)]) \<and> map_of [(''a'', shownPlayer)] ''a'' = Some shownPlayer
   \<and> map_of (players demoClient) ''a'' = Some shownPlayer
   \<and> map (\<lambda>(k, q). (k, s_x q, s_y q))
        (players ((update ^^ 2) (onGameState [(''a'', shownPlayer)] [] demoClient))) = [(''a'', 5, 0)]"
proof -
  have d: "distinct (map fst [(''a'', shownPlayer)])" by simp
  have t: "map_of [(''a'', shownPlayer)] ''a'' = Some shownPlayer" by simp
  have p: "map_of (players demoClient) ''a'' = Some shownPlayer" by (simp add: demoClient_def)
  from interpolation_fixed_point [OF d t p refl refl, of 2 "[]"]
  obtain q where q: "map_of (players ((update ^^ 2) (onGameState [(''a'', shownPlayer)] [] demoClient))) ''a'' = Some q"
    "s_x q = s_x shownPlayer" "s_y q = s_y shownPlayer" by blast
  have keys: "map fst (players ((update ^^ 2) (onGameState [(''a'', shownPlayer)] [] demoClient))) = [''a'']"
    by (simp add: numeral_2_eq_2 onGameState_def demoClient_def update_def Let_def)
  then obtain q' where q': "players ((update ^^ 2) (onGameState [(''a'', shownPlayer)] [] demoClient)) = [(''a'', q')]"
    by (cases "players ((update ^^ 2) (onGameState [(''a'', shownPlayer)] [] demoClient))") auto
  with q have "q' = q" by simp
  then show ?thesis using d t p q q' by (simp add: shownPlayer_def)
qed

lemma spy_run: "run (init zeroRng) spyEvents = Some spyServer"
proof -
  have "run (init zeroRng) spyEvents = run duoServer [Connect ''m'', JoinRoom ''m'' ''a'' ''mal'' 0]"
    by (simp add: spyEvents_def run_append duo_run)
  then show ?thesis
    by (simp add: duoServer_def joinRoom_def protoKeys_def createRoom_zero newPlayer_zero split_def
        spyServer_def spyRoom_def)
qed

lemma spy_room_tick:
  "tickRoom ''a'' spyRoom zeroRng =
     Some (spyRoom\<lparr>r_players := [(''m'', movedPlayer ''m'' ''mal'')], r_tickCount := 1\<rparr>,
           [(ToChannel ''a'', GameState [(''m'', movedPlayer ''m'' ''mal'')] (replicate 100 cornerFood))],
           zeroRng)"
  by (simp add: tickRoom_def spyRoom_def spawn_step deadPlayers_def)

lemma spy_tick:
  "tick spyServer =
     Some (spyServer\<lparr>rooms := [(''1'', duoRoomAfter),
               (''a'', spyRoom\<lparr>r_players := [(''m'', movedPlayer ''m'' ''mal'')], r_tickCount := 1\<rparr>)]\<rparr>,
           [(ToChannel ''a'', Dead), (ToChannel ''b'', Dead),
            (ToChannel ''1'', GameState [] (replicate 100 cornerFood @ duoRemains @ duoRemains)),
            (ToChannel ''a'', GameState [(''m'', movedPlayer ''m'' ''mal'')] (replicate 100 cornerFood))])"
  by (simp add: tick_def spyServer_def duo_tick spy_room_tick)

lemma stray_run: "run (init zeroRng) strayEvents = Some strayServer"
  by (simp add: strayEvents_def init_def joinRoom_def protoKeys_def createRoom_zero newPlayer_zero
      split_def onDisconnect_def Let_def strayServer_def duoRoom_def)

lemma stray_tick:
  "tick strayServer =
     Some (strayServer\<lparr>rooms := [(''1'', duoRoomAfter)]\<rparr>,
           [(ToChannel ''a'', Dead), (ToChannel ''b'', Dead),
            (ToChannel ''1'', GameState [] (replicate 100 cornerFood @ duoRemains @ duoRemains))])"
  by (simp add: tick_def strayServer_def duo_tick)

text \<open>
  C7. Player \<open>a\<close> of room 1 dies in a tick. Its \<open>dead\<close> goes to the channel \<open>a\<close>, which holds
  the socket \<open>a\<close> and also the socket \<open>m\<close>, whose own player is alive in the room it
  named \<open>a\<close>: a second connection receives the event. And when the socket of a player
  has gone while the player stayed in a room, the \<open>dead\<close> of that player reaches no
  connection at all.
\<close>

theorem dead_reaches_other_connections:
  "run (init zeroRng) spyEvents = Some spyServer
   \<and> map_option (\<lambda>(s, out). (deadTargets out, receives s ''a'' (ToChannel ''a''),
          receives s ''m'' (ToChannel ''a''), receives s ''b'' (ToChannel ''a''), registrySummary s))
        (tick spyServer)
       = Some ([ToChannel ''a'', ToChannel ''b''], True, True, False,
               [(''1'', [], 106, 1), (''a'', [''m''], 100, 1)])
   \<and> run (init zeroRng) strayEvents = Some strayServer
   \<and> map_option (\<lambda>(s, out). (deadTargets out, \<exists>sid. receives s sid (ToChannel ''a'')))
        (tick strayServer)
       = Some ([ToChannel ''a'', ToChannel ''b''], False)"
proof -
  have a: "map_option (\<lambda>(s, out). (deadTargets out, receives s ''a'' (ToChannel ''a''),
          receives s ''m'' (ToChannel ''a''), receives s ''b'' (ToChannel ''a''), registrySummary s))
        (tick spyServer)
       = Some ([ToChannel ''a'', ToChannel ''b''], True, True, False,
               [(''1'', [], 106, 1), (''a'', [''m''], 100, 1)])"
    by (simp add: spy_tick deadTargets_def)
       (simp add: spyServer_def registrySummary_def duoRoomAfter_def duoRemains_def spyRoom_def)
  have b: "map_option (\<lambda>(s, out). (deadTargets out, \<exists>sid. receives s sid (ToChannel ''a'')))
        (tick strayServer)
       = Some ([ToChannel ''a'', ToChannel ''b''], False)"
    by (simp add: stray_tick deadTargets_def) (simp add: strayServer_def)
  show ?thesis using spy_run a stray_run b by simp
qed

lemma MAP_SIZE_half: "MAP_SIZE / 2 = 1000"
  by (simp add: MAP_SIZE_def)

text \<open>
  On numbers the boundary checks clamp: from a position and a heading that are numbers,
  whatever the speed, both coordinates end in the arena, each the clamped value of its
  own axis.
\<close>

lemma boundary_clamps_numbers:
  assumes "p_x p = Num x" and "p_y p = Num y" and "p_angle p = Num a"
  shows "p_x (boundaryChecks (moveHead v p)) = Num (max (- MAP_SIZE / 2) (min (MAP_SIZE / 2) (x + cos a * v)))
       \<and> p_y (boundaryChecks (moveHead v p)) = Num (max (- MAP_SIZE / 2) (min (MAP_SIZE / 2) (y + sin a * v)))
       \<and> inArena (p_x (boundaryChecks (moveHead v p)))
       \<and> inArena (p_y (boundaryChecks (moveHead v p)))"
  using assms by (simp add: boundaryChecks_def moveHead_def Let_def MAP_SIZE_def inArena_def)

lemma nan_not_near: "p_x p = NaN \<Longrightarrow> \<not> near p f"
  by (cases "food_x f") (simp_all add: near_def)

lemma lone_input:
  "onInput ''a'' v (loneServer p tc) = loneServer (p\<lparr>p_angle := v\<rparr>) tc"
  by (simp add: onInput_def guardedPlayer_def storePlayer_def loneServer_def)

lemma lone_tick:
  assumes "playerTick (Suc tc) p (replicate 100 cornerFood) zeroRng = Some (q, replicate 100 cornerFood, zeroRng)"
  shows "\<exists>out. tick (loneServer p tc) = Some (loneServer q (Suc tc), out)"
  using assms by (simp add: tick_def loneServer_def tickRoom_def deadPlayers_def)

lemma lost_first:
  "playerTick tc (spawnPlayer ''a'' ''ann''\<lparr>p_angle := NaN\<rparr>) (replicate 100 cornerFood) zeroRng
     = Some (lostOnce, replicate 100 cornerFood, zeroRng)"
proof -
  let ?p = "spawnPlayer ''a'' ''ann''\<lparr>p_angle := NaN\<rparr>"
  let ?q = "updateBody (boundaryChecks (moveHead SPEED ?p))"
  have q: "?q = lostOnce"
    by (simp add: updateBody_def boundaryChecks_def moveHead_def popWhile_take Let_def
        spawnPlayer_def lostOnce_def)
  have hb: "handleBoost tc ?p (replicate 100 cornerFood) zeroRng
      = (SPEED, ?p, replicate 100 cornerFood, zeroRng)"
    by (simp add: handleBoost_def spawnPlayer_def)
  have far: "\<not> near lostOnce cornerFood" by (rule nan_not_near) (simp add: lostOnce_def)
  show ?thesis using far by (simp add: playerTick_def hb foodLoop_eq q grow_def)
qed

lemma lost_second:
  "playerTick tc (lostOnce\<lparr>p_angle := Num 0\<rparr>) (replicate 100 cornerFood) zeroRng
     = Some (lostTwice, replicate 100 cornerFood, zeroRng)"
proof -
  let ?p = "lostOnce\<lparr>p_angle := Num 0\<rparr>"
  let ?q = "updateBody (boundaryChecks (moveHead SPEED ?p))"
  have q: "?q = lostTwice"
    by (simp add: updateBody_def boundaryChecks_def moveHead_def popWhile_take Let_def
        lostOnce_def lostTwice_def)
  have hb: "handleBoost tc ?p (replicate 100 cornerFood) zeroRng
      = (SPEED, ?p, replicate 100 cornerFood, zeroRng)"
    by (simp add: handleBoost_def lostOnce_def)
  have far: "\<not> near lostTwice cornerFood" by (rule nan_not_near) (simp add: lostTwice_def)
  show ?thesis using far by (simp add: playerTick_def hb foodLoop_eq q grow_def)
qed

lemma lost_run:
  "run (init zeroRng) [Connect ''a'', JoinRoom ''a'' ''1'' ''ann'' 0, Input ''a'' NaN, Tick,
                      Input ''a'' (Num 0), Tick] = Some (loneServer lostTwice 2)"
proof -
  have solo: "soloServer = loneServer (spawnPlayer ''a'' ''ann'') 0"
    by (simp add: soloServer_def soloRoom_def loneServer_def)
  have c: "socketRoomId (loneServer p tc) ''a'' \<noteq> None" for p tc by (simp add: loneServer_def)
  obtain out1 where t1: "tick (loneServer (spawnPlayer ''a'' ''ann''\<lparr>p_angle := NaN\<rparr>) 0)
      = Some (loneServer lostOnce (Suc 0), out1)"
    using lone_tick [OF lost_first] by blast
  obtain out2 where t2: "tick (loneServer (lostOnce\<lparr>p_angle := Num 0\<rparr>) (Suc 0))
      = Some (loneServer lostTwice (Suc (Suc 0)), out2)"
    using lone_tick [OF lost_second] by blast
  have "run (init zeroRng) ([Connect ''a'', JoinRoom ''a'' ''1'' ''ann'' 0] @ [Input ''a'' NaN, Tick,
                      Input ''a'' (Num 0), Tick])
      = run soloServer [Input ''a'' NaN, Tick, Input ''a'' (Num 0), Tick]"
    by (simp only: run_append solo_run option.case)
  also have "\<dots> = Some (loneServer lostTwice (Suc (Suc 0)))"
    unfolding solo by (simp add: c lone_input t1 t2)
  finally show ?thesis by (simp add: numeral_2_eq_2)
qed

text \<open>
  C8. A player joins, sends an \<^verbatim>\<open>input\<close> whose angle \<^verbatim>\<open>Math.cos\<close> turns into \<^verbatim>\<open>NaN\<close>, and the
  room ticks: its position is \<open>NaN\<close> on both axes, which no boundary check catches, and is
  not in the arena. A proper angle sent afterwards does not bring it back.
\<close>

theorem nan_heading_escapes_clamp:
  "map_option registryPositions
     (run (init zeroRng) [Connect ''a'', JoinRoom ''a'' ''1'' ''ann'' 0, Input ''a'' NaN, Tick])
     = Some [(''1'', [(''a'', NaN, NaN, False, False)])]
   \<and> map_option registryPositions
     (run (init zeroRng) [Connect ''a'', JoinRoom ''a'' ''1'' ''ann'' 0, Input ''a'' NaN, Tick,
                          Input ''a'' (Num 0), Tick])
     = Some [(''1'', [(''a'', NaN, NaN, False, False)])]"
proof -
  have solo: "soloServer = loneServer (spawnPlayer ''a'' ''ann'') 0"
    by (simp add: soloServer_def soloRoom_def loneServer_def)
  have c: "socketRoomId (loneServer p tc) ''a'' \<noteq> None" for p tc by (simp add: loneServer_def)
  obtain out1 where t1: "tick (loneServer (spawnPlayer ''a'' ''ann''\<lparr>p_angle := NaN\<rparr>) 0)
      = Some (loneServer lostOnce (Suc 0), out1)"
    using lone_tick [OF lost_first] by blast
  have "run (init zeroRng) ([Connect ''a'', JoinRoom ''a'' ''1'' ''ann'' 0] @ [Input ''a'' NaN, Tick])
      = run soloServer [Input ''a'' NaN, Tick]"
    by (simp only: run_append solo_run option.case)
  also have "\<dots> = Some (loneServer lostOnce (Suc 0))"
    unfolding solo by (simp add: c lone_input t1)
  finally have one: "run (init zeroRng) [Connect ''a'', JoinRoom ''a'' ''1'' ''ann'' 0, Input ''a'' NaN, Tick]
      = Some (loneServer lostOnce (Suc 0))" by simp
  have pos: "registryPositions (loneServer lostOnce (Suc 0)) = [(''1'', [(''a'', NaN, NaN, False, False)])]"
    "registryPositions (loneServer lostTwice 2) = [(''1'', [(''a'', NaN, NaN, False, False)])]"
    by (simp_all add: registryPositions_def loneServer_def lostOnce_def lostTwice_def inArena_def)
  show ?thesis by (simp only: one lost_run option.map pos)
qed

end
